theory Spec2Isabelle
  imports Main
begin

section \<open>Errors\<close>

text \<open>
  The exceptions the source raises. \<open>RecursionError\<close> is what the interpreter raises
  when a recursion exceeds its depth limit; \<open>Exception\<close> is the bare \<open>Exception(...)\<close>.
\<close>

datatype error =
    TypeError
  | ValueError
  | AssertionError
  | NotImplementedError
  | RecursionError
  | Exception

section \<open>Ambient spaces and the polynomial-ideal backend\<close>

text \<open>
  \<open>ProjectiveSpace(n, K, var)\<close>. The coordinate ring of a projective space is unique for
  its dimension, field and variable name, so the source's test \<open>I.ring() is not J.ring()\<close>
  is inequality of these values.
\<close>

record pspace =
  sp_dim :: nat
  sp_field :: nat
  sp_var :: string

text \<open>
  The backend (Sage and Singular) is not part of the source: ideal membership, dimension,
  degree, saturation, intersection and minimal bases are taken as parameters. An ideal is
  given by its list of generators; the zero ideal by the empty list. \<open>'p\<close> is the type of
  polynomials and \<open>'r\<close> the state of the random generator.

  \<^item> \<open>b_member sp g I\<close> is \<open>g in I\<close>;
  \<^item> \<open>b_dimension sp I\<close> is the parent class's \<open>dimension()\<close> of the subscheme cut out by \<open>I\<close>;
  \<^item> \<open>b_degree sp I\<close> is the parent class's \<open>degree()\<close>;
  \<^item> \<open>b_saturation sp I\<close> is \<open>I.saturation(I.ring().irrelevant_ideal())[0]\<close>;
  \<^item> \<open>b_intersection sp I J\<close> is \<open>I.intersection(J)\<close>;
  \<^item> \<open>b_minbase sp I\<close> is \<open>_minbase(I)\<close>;
  \<^item> \<open>b_one sp\<close> is \<open>coordinate_ring().one()\<close>;
  \<^item> \<open>b_poly_degree g\<close> is \<open>g.degree()\<close>;
  \<^item> \<open>b_shift sp g k\<close> is \<open>(g * ideal(R.gens()) ** k).gens()\<close>;
  \<^item> \<open>b_random_combination B r\<close> is \<open>sum([K.random_element() * g for g in B])\<close>.
\<close>

record ('p, 'r) backend =
  b_member :: "pspace \<Rightarrow> 'p \<Rightarrow> 'p list \<Rightarrow> bool"
  b_dimension :: "pspace \<Rightarrow> 'p list \<Rightarrow> int"
  b_degree :: "pspace \<Rightarrow> 'p list \<Rightarrow> int"
  b_saturation :: "pspace \<Rightarrow> 'p list \<Rightarrow> 'p list"
  b_intersection :: "pspace \<Rightarrow> 'p list \<Rightarrow> 'p list \<Rightarrow> 'p list"
  b_minbase :: "pspace \<Rightarrow> 'p list \<Rightarrow> 'p list"
  b_one :: "pspace \<Rightarrow> 'p"
  b_poly_degree :: "'p \<Rightarrow> int"
  b_shift :: "pspace \<Rightarrow> 'p \<Rightarrow> nat \<Rightarrow> 'p list"
  b_random_combination :: "'p list \<Rightarrow> 'r \<Rightarrow> 'p \<times> 'r"

section \<open>Class \<open>Embedded_projective_variety\<close>\<close>

text \<open>
  An object of the class: its ambient space, its defining polynomials, and the attributes
  the methods attach on first use (\<open>None\<close> while the attribute is absent). Objects live in
  a heap, a list indexed by reference, so that \<open>self is Y\<close> is equality of references.
\<close>

record 'p variety =
  ambient_space :: pspace
  defining_polynomials :: "'p list"
  dimension_attr :: "int option"
  codimension_attr :: "int option"
  ambient_attr :: "nat option"
  degree_attr :: "int option"
  homogeneous_components_ideal :: "(int \<times> 'p list) list"

type_synonym 'p heap = "'p variety list"

text \<open>\<open>__init__\<close>: a fresh object with no attribute attached.\<close>

definition Embedded_projective_variety :: "pspace \<Rightarrow> 'p list \<Rightarrow> 'p variety" where
  "Embedded_projective_variety PP polys =
     \<lparr>ambient_space = PP, defining_polynomials = polys, dimension_attr = None,
      codimension_attr = None, ambient_attr = None, degree_attr = None,
      homogeneous_components_ideal = []\<rparr>"

definition alloc :: "'p heap \<Rightarrow> 'p variety \<Rightarrow> nat \<times> 'p heap" where
  "alloc h v = (length h, h @ [v])"

text \<open>\<open>dimension\<close>: the cached value, else the parent's dimension clamped at \<open>-1\<close>.\<close>

definition dimension :: "('p, 'r) backend \<Rightarrow> 'p heap \<Rightarrow> nat \<Rightarrow> int \<times> 'p heap" where
  "dimension B h x =
     (case dimension_attr (h ! x) of
        Some d \<Rightarrow> (d, h)
      | None \<Rightarrow>
          (let d = max (b_dimension B (ambient_space (h ! x)) (defining_polynomials (h ! x))) (- 1)
           in (d, h[x := (h ! x)\<lparr>dimension_attr := Some d\<rparr>])))"

definition codimension :: "('p, 'r) backend \<Rightarrow> 'p heap \<Rightarrow> nat \<Rightarrow> int \<times> 'p heap" where
  "codimension B h x =
     (case codimension_attr (h ! x) of
        Some c \<Rightarrow> (c, h)
      | None \<Rightarrow>
          (let (d, h1) = dimension B h x;
               c = int (sp_dim (ambient_space (h1 ! x))) - d
           in (c, h1[x := (h1 ! x)\<lparr>codimension_attr := Some c\<rparr>])))"

text \<open>
  \<open>ambient\<close>: the variety itself when its codimension is 0, else a new object for the
  ambient space; cached in \<open>_ambient\<close>.
\<close>

definition ambient :: "('p, 'r) backend \<Rightarrow> 'p heap \<Rightarrow> nat \<Rightarrow> nat \<times> 'p heap" where
  "ambient B h x =
     (case ambient_attr (h ! x) of
        Some a \<Rightarrow> (a, h)
      | None \<Rightarrow>
          (let (c, h1) = codimension B h x in
           if c = 0 then (x, h1[x := (h1 ! x)\<lparr>ambient_attr := Some x\<rparr>])
           else
             (let (a, h2) = alloc h1 (Embedded_projective_variety (ambient_space (h1 ! x)) [])
              in (a, h2[x := (h2 ! x)\<lparr>ambient_attr := Some a\<rparr>]))))"


text \<open>\<open>empty\<close>: the subscheme of the ambient space defined by the polynomial 1.\<close>

definition empty :: "('p, 'r) backend \<Rightarrow> 'p heap \<Rightarrow> nat \<Rightarrow> nat \<times> 'p heap" where
  "empty B h x =
     alloc h (Embedded_projective_variety (ambient_space (h ! x)) [b_one B (ambient_space (h ! x))])"

text \<open>
  \<open>is_subset\<close>: true for the same object; false for different rings; else every generator
  of \<open>Y\<close>'s ideal must lie in the ideal of \<open>self\<close>.
\<close>

definition is_subset :: "('p, 'r) backend \<Rightarrow> 'p heap \<Rightarrow> nat \<Rightarrow> nat \<Rightarrow> bool" where
  "is_subset B h x y =
     (if x = y then True
      else if ambient_space (h ! x) \<noteq> ambient_space (h ! y) then False
      else list_all (\<lambda>g. b_member B (ambient_space (h ! x)) g (defining_polynomials (h ! x)))
             (defining_polynomials (h ! y)))"

text \<open>\<open>__eq__\<close> and \<open>__ne__\<close>.\<close>

definition eq :: "('p, 'r) backend \<Rightarrow> 'p heap \<Rightarrow> nat \<Rightarrow> nat \<Rightarrow> bool" where
  "eq B h x y = (if \<not> is_subset B h x y then False else is_subset B h y x)"

definition ne :: "('p, 'r) backend \<Rightarrow> 'p heap \<Rightarrow> nat \<Rightarrow> nat \<Rightarrow> bool" where
  "ne B h x y = (\<not> eq B h x y)"

text \<open>
  \<open>intersection\<close>: the sum of the two ideals (the generators of both), saturated by the
  irrelevant ideal and minimally regenerated. \<open>ValueError\<close> when the ambients differ.
\<close>

definition intersection ::
  "('p, 'r) backend \<Rightarrow> 'p heap \<Rightarrow> nat \<Rightarrow> nat \<Rightarrow> (error + nat) \<times> 'p heap" where
  "intersection B h x other =
     (let (a1, h1) = ambient B h x;
          (a2, h2) = ambient B h1 other in
      if ne B h2 a1 a2 then (Inl ValueError, h2)
      else
        (let I = defining_polynomials (h2 ! x) @ defining_polynomials (h2 ! other);
             I' = b_saturation B (ambient_space (h2 ! x)) I;
             (r, h3) = alloc h2 (Embedded_projective_variety (ambient_space (h2 ! x))
                                  (b_minbase B (ambient_space (h2 ! x)) I'))
         in (Inr r, h3)))"

text \<open>\<open>union\<close>: the intersection of the two ideals, minimally regenerated.\<close>

definition union ::
  "('p, 'r) backend \<Rightarrow> 'p heap \<Rightarrow> nat \<Rightarrow> nat \<Rightarrow> (error + nat) \<times> 'p heap" where
  "union B h x other =
     (let (a1, h1) = ambient B h x;
          (a2, h2) = ambient B h1 other in
      if ne B h2 a1 a2 then (Inl ValueError, h2)
      else
        (let I = b_intersection B (ambient_space (h2 ! x))
                   (defining_polynomials (h2 ! x)) (defining_polynomials (h2 ! other));
             (r, h3) = alloc h2 (Embedded_projective_variety (ambient_space (h2 ! x))
                                  (b_minbase B (ambient_space (h2 ! x)) I))
         in (Inr r, h3)))"

text \<open>
  \<open>_homogeneous_component(n, trim)\<close>: the cached basis for the degree, else for each
  generator \<open>g\<close> of degree at most \<open>n\<close> the generators of \<open>g\<close> times the power \<open>n - deg g\<close> of
  the irrelevant ideal; trimmed to a minimal base and cached only when \<open>trim\<close> is set.
\<close>

definition homogeneous_component ::
  "('p, 'r) backend \<Rightarrow> 'p heap \<Rightarrow> nat \<Rightarrow> int \<Rightarrow> bool \<Rightarrow> 'p list \<times> 'p heap" where
  "homogeneous_component B h x n trim =
     (case map_of (homogeneous_components_ideal (h ! x)) n of
        Some Bs \<Rightarrow> (Bs, h)
      | None \<Rightarrow>
          (let sp = ambient_space (h ! x);
               B0 = concat (map (\<lambda>g. if b_poly_degree B g \<le> n
                                       then b_shift B sp g (nat (n - b_poly_degree B g))
                                       else [])
                              (defining_polynomials (h ! x)));
               B1 = (if length B0 > 0 \<and> trim then b_minbase B sp B0 else B0)
           in if trim
              then (B1, h[x := (h ! x)\<lparr>homogeneous_components_ideal :=
                                         (n, B1) # homogeneous_components_ideal (h ! x)\<rparr>])
              else (B1, h)))"

text \<open>
  The comprehension of \<open>random\<close>: \<open>k\<close> random linear combinations of the basis, each with
  fresh coefficients.
\<close>

fun random_combinations :: "('p, 'r) backend \<Rightarrow> 'p list \<Rightarrow> nat \<Rightarrow> 'r \<Rightarrow> 'p list \<times> 'r" where
  "random_combinations B Bs 0 r = ([], r)"
| "random_combinations B Bs (Suc k) r =
     (let (p, r1) = b_random_combination B Bs r;
          (ps, r2) = random_combinations B Bs k r1
      in (p # ps, r2))"

text \<open>
  The loop of \<open>random\<close> over the distinct degrees: for each degree, as many random
  combinations of its homogeneous component as the degree occurs among the arguments.
\<close>

fun random_loop ::
  "('p, 'r) backend \<Rightarrow> 'p heap \<Rightarrow> nat \<Rightarrow> int list \<Rightarrow> int list \<Rightarrow> 'p list \<Rightarrow> 'r
     \<Rightarrow> 'p list \<times> 'p heap \<times> 'r" where
  "random_loop B h x args [] L r = (L, h, r)"
| "random_loop B h x args (i # ds) L r =
     (let (Bs, h1) = homogeneous_component B h x i False;
          (ps, r1) = random_combinations B Bs (count_list args i) r
      in random_loop B h1 x args ds (L @ ps) r1)"

text \<open>
  \<open>random(*args)\<close>: the ambient for no argument; \<open>TypeError\<close> unless every argument is a
  positive integer; \<open>ValueError\<close> when the codimension is 0 or less than the number of
  arguments; then the variety of the random combinations, and \<open>Exception\<close> unless its
  codimension is the number of arguments. The distinct degrees are taken in the order
  of their first occurrence (the source iterates over \<open>set(args)\<close>).
\<close>

definition random ::
  "('p, 'r) backend \<Rightarrow> 'p heap \<Rightarrow> 'r \<Rightarrow> nat \<Rightarrow> int list \<Rightarrow> (error + nat) \<times> 'p heap \<times> 'r" where
  "random B h r x args =
     (if length args = 0 then (let (a, h1) = ambient B h x in (Inr a, h1, r))
      else if \<not> list_all (\<lambda>i. 0 < i) args then (Inl TypeError, h, r)
      else
        (let (c, h1) = codimension B h x in
         if c = 0 then (Inl ValueError, h1, r)
         else
           (let (c', h2) = codimension B h1 x in
            if int (length args) > c' then (Inl ValueError, h2, r)
            else
              (let (L, h3, r1) = random_loop B h2 x args (remdups args) [] r;
                   (X, h4) = alloc h3 (Embedded_projective_variety (ambient_space (h3 ! x)) L);
                   (cX, h5) = codimension B h4 X
               in if cX \<noteq> int (length args) then (Inl Exception, h5, r1)
                  else (Inr X, h5, r1)))))"

section \<open>Point sampling: \<open>_raw_point\<close>\<close>

text \<open>
  \<open>_raw_point\<close> calls methods of the class that rest on the backend, on the random
  generator and on the rational maps: they are taken as parameters, each acting on the
  heap and the generator's state (which stands for everything outside the heap).

  \<^item> \<open>m_hyperplane_section x cache\<close> is \<open>x.hyperplane_section(cache)\<close>;
  \<^item> \<open>m_irreducible_components X\<close> is \<open>X.irreducible_components()\<close>;
  \<^item> \<open>m_is_point q\<close> is \<open>q._is_point()\<close>;
  \<^item> \<open>m_embedding X q\<close> is \<open>X.embedding_as_hyperplane_section()(q)\<close>;
  \<^item> \<open>m_random_projection x\<close> is the map \<open>rational_map(x, [...])\<close> given by
    \<open>x.dimension() + 2\<close> random linear forms;
  \<^item> \<open>m_image f\<close> is \<open>f.image()\<close> and \<open>m_inverse_image f q\<close> is \<open>f.inverse_image(q)\<close>.
\<close>

record ('p, 'r, 'm) methods =
  m_hyperplane_section :: "nat \<Rightarrow> bool \<Rightarrow> 'p heap \<times> 'r \<Rightarrow> (error + nat) \<times> 'p heap \<times> 'r"
  m_irreducible_components :: "nat \<Rightarrow> 'p heap \<times> 'r \<Rightarrow> (error + nat list) \<times> 'p heap \<times> 'r"
  m_is_point :: "nat \<Rightarrow> 'p heap \<times> 'r \<Rightarrow> bool \<times> 'p heap \<times> 'r"
  m_embedding :: "nat \<Rightarrow> nat \<Rightarrow> 'p heap \<times> 'r \<Rightarrow> (error + nat) \<times> 'p heap \<times> 'r"
  m_random_projection :: "nat \<Rightarrow> 'p heap \<times> 'r \<Rightarrow> (error + 'm) \<times> 'p heap \<times> 'r"
  m_image :: "'m \<Rightarrow> 'p heap \<times> 'r \<Rightarrow> (error + nat) \<times> 'p heap \<times> 'r"
  m_inverse_image :: "'m \<Rightarrow> nat \<Rightarrow> 'p heap \<times> 'r \<Rightarrow> (error + nat) \<times> 'p heap \<times> 'r"

text \<open>The comprehension \<open>[q for q in ... if q._is_point()]\<close>.\<close>

fun points_among ::
  "('p, 'r, 'm) methods \<Rightarrow> nat list \<Rightarrow> 'p heap \<times> 'r \<Rightarrow> nat list \<times> 'p heap \<times> 'r" where
  "points_among M [] st = ([], st)"
| "points_among M (q # qs) st =
     (let (b, st1) = m_is_point M q st;
          (L, st2) = points_among M qs st1
      in (if b then q # L else L, st2))"

text \<open>
  One round of the final loop of \<open>_raw_point\<close>: a fresh hyperplane section (\<open>cache=False\<close>),
  its components that are points; \<open>Inr None\<close> when there is none (\<open>continue\<close>), else the image
  of the first one, asserted to be a point.
\<close>

definition raw_point_attempt ::
  "('p, 'r, 'm) methods \<Rightarrow> nat \<Rightarrow> 'p heap \<times> 'r \<Rightarrow> (error + nat option) \<times> 'p heap \<times> 'r" where
  "raw_point_attempt M x st =
     (case m_hyperplane_section M x False st of
        (Inl e, st1) \<Rightarrow> (Inl e, st1)
      | (Inr X, st1) \<Rightarrow>
          (case m_irreducible_components M X st1 of
             (Inl e, st2) \<Rightarrow> (Inl e, st2)
           | (Inr qs, st2) \<Rightarrow>
               (case points_among M qs st2 of
                  ([], st3) \<Rightarrow> (Inr None, st3)
                | (q # L, st3) \<Rightarrow>
                    (case m_embedding M X q st3 of
                       (Inl e, st4) \<Rightarrow> (Inl e, st4)
                     | (Inr p, st4) \<Rightarrow>
                         (case m_is_point M p st4 of
                            (b, st5) \<Rightarrow>
                              if b then (Inr (Some p), st5) else (Inl AssertionError, st5))))))"

text \<open>The state one round leaves.\<close>

definition raw_point_step ::
  "('p, 'r, 'm) methods \<Rightarrow> nat \<Rightarrow> 'p heap \<times> 'r \<Rightarrow> 'p heap \<times> 'r" where
  "raw_point_step M x st = snd (raw_point_attempt M x st)"

text \<open>\<open>for i in range(k): ... else: raise Exception(...)\<close>.\<close>

fun raw_point_loop ::
  "('p, 'r, 'm) methods \<Rightarrow> nat \<Rightarrow> nat \<Rightarrow> 'p heap \<times> 'r \<Rightarrow> (error + nat) \<times> 'p heap \<times> 'r" where
  "raw_point_loop M 0 x st = (Inl Exception, st)"
| "raw_point_loop M (Suc k) x st =
     (case raw_point_attempt M x st of
        (Inl e, st1) \<Rightarrow> (Inl e, st1)
      | (Inr None, st1) \<Rightarrow> raw_point_loop M k x st1
      | (Inr (Some p), st1) \<Rightarrow> (Inr p, st1))"

text \<open>
  \<open>_raw_point\<close>. The first argument after the backend bounds the depth of the recursion,
  as the interpreter does (\<open>RecursionError\<close>).
\<close>

fun raw_point ::
  "('p, 'r, 'm) methods \<Rightarrow> ('p, 'r) backend \<Rightarrow> nat \<Rightarrow> nat \<Rightarrow> 'p heap \<times> 'r
     \<Rightarrow> (error + nat) \<times> 'p heap \<times> 'r" where
  "raw_point M B 0 x st = (Inl RecursionError, st)"
| "raw_point M B (Suc n) x st =
     (case dimension B (fst st) x of
        (d, h1) \<Rightarrow>
          if d \<le> 0 then (Inl ValueError, (h1, snd st))
          else
            (case dimension B h1 x of
               (d', h2) \<Rightarrow>
                 if d' > 1 then
                   (case m_hyperplane_section M x False (h2, snd st) of
                      (Inl e, st1) \<Rightarrow> (Inl e, st1)
                    | (Inr X, st1) \<Rightarrow>
                        (case raw_point M B n X st1 of
                           (Inl e, st2) \<Rightarrow> (Inl e, st2)
                         | (Inr q, st2) \<Rightarrow>
                             (case m_embedding M X q st2 of
                                (Inl e, st3) \<Rightarrow> (Inl e, st3)
                              | (Inr p, st3) \<Rightarrow>
                                  (case m_is_point M p st3 of
                                     (b, st4) \<Rightarrow>
                                       if b then (Inr p, st4) else (Inl AssertionError, st4)))))
                 else
                   (case codimension B h2 x of
                      (c, h3) \<Rightarrow>
                        (case (if c = 0
                               then (case empty B h3 x of
                                       (e, h4) \<Rightarrow>
                                         (case dimension B h4 x of
                                            (d'', h5) \<Rightarrow>
                                              (case random B h5 (snd st) e (replicate (nat d'') 1) of
                                                 (Inl err, h6, r6) \<Rightarrow> (Inl err, h6, r6)
                                               | (Inr v, h6, r6) \<Rightarrow> (Inr (), h6, r6))))
                               else (Inr (), h3, snd st)) of
                           (Inl err, st5) \<Rightarrow> (Inl err, st5)
                         | (Inr u, st5) \<Rightarrow>
                             (case codimension B (fst st5) x of
                                (c', h7) \<Rightarrow>
                                  if c' > 1 then
                                    (case m_random_projection M x (h7, snd st5) of
                                       (Inl e, st6) \<Rightarrow> (Inl e, st6)
                                     | (Inr f, st6) \<Rightarrow>
                                         (case m_image M f st6 of
                                            (Inl e, st7) \<Rightarrow> (Inl e, st7)
                                          | (Inr Y, st7) \<Rightarrow>
                                              (case raw_point M B n Y st7 of
                                                 (Inl e, st8) \<Rightarrow> (Inl e, st8)
                                               | (Inr q, st8) \<Rightarrow>
                                                   (case m_inverse_image M f q st8 of
                                                      (Inl e, st9) \<Rightarrow> (Inl e, st9)
                                                    | (Inr p, st9) \<Rightarrow>
                                                        (case m_is_point M p st9 of
                                                           (b, st10) \<Rightarrow>
                                                             if b then (Inr p, st10)
                                                             else (Inl AssertionError, st10))))))
                                  else raw_point_loop M 10 x (h7, snd st5))))))"

section \<open>Class \<open>Rational_map_between_embedded_projective_varieties\<close>\<close>

text \<open>
  An object of the class: source and target (references to varieties), the defining
  forms and their common degree, the four flags (\<open>None\<close> is Python's \<open>None\<close>: not resolved),
  and the attributes \<open>_inverse_rational_map\<close> and \<open>_projective_degrees_list\<close> (\<open>None\<close>
  while absent). The maps live in a heap of their own.
\<close>

record 'p rational_map =
  source :: nat
  target :: nat
  forms :: "'p list"
  degree_Forms :: int
  is_isomorphism :: "bool option"
  is_birational :: "bool option"
  is_dominant :: "bool option"
  is_morphism :: "bool option"
  inverse_rational_map :: "nat option"
  projective_degrees_list :: "int list option"

text \<open>
  What the constructor and \<open>compose\<close> ask of the backend about forms:

  \<^item> \<open>fb_ngens polys\<close> is \<open>len(matrix(polys).base_ring().gens())\<close>;
  \<^item> \<open>fb_subs sp polys\<close> is the forms rewritten in the variables of the source's ring;
  \<^item> \<open>fb_morphism_init X Y polys\<close> is the exception, if any, of the parent class's
    initializer;
  \<^item> \<open>fb_is_zero pol\<close> is \<open>pol == 0\<close>;
  \<^item> \<open>fb_compose s f\<close> is the forms of the product \<open>f * self\<close>, or its exception.
\<close>

record 'p forms_backend =
  fb_ngens :: "'p list \<Rightarrow> nat"
  fb_subs :: "pspace \<Rightarrow> 'p list \<Rightarrow> 'p list"
  fb_morphism_init :: "pspace \<Rightarrow> pspace \<Rightarrow> 'p list \<Rightarrow> error option"
  fb_is_zero :: "'p \<Rightarrow> bool"
  fb_compose :: "'p list \<Rightarrow> 'p list \<Rightarrow> error + 'p list"

text \<open>
  \<open>__init__(X, Y, polys)\<close> with a target given, as all the calls modelled here give one:
  the checks in the source's order (base rings, number of forms, number of variables, the
  parent's initializer, one common degree), then the flags: all unresolved, but
  \<open>_is_dominant\<close>, which is true when the target's dimension is negative.
\<close>

definition Rational_map_between_embedded_projective_varieties ::
  "('p, 'r) backend \<Rightarrow> 'p forms_backend \<Rightarrow> 'p heap \<Rightarrow> nat \<Rightarrow> nat \<Rightarrow> 'p list
     \<Rightarrow> (error + 'p rational_map) \<times> 'p heap" where
  "Rational_map_between_embedded_projective_varieties B F h X Y polys =
     (if sp_field (ambient_space (h ! X)) \<noteq> sp_field (ambient_space (h ! Y))
      then (Inl ValueError, h)
      else
        (case ambient B h Y of
           (aY, h1) \<Rightarrow>
             (case dimension B h1 aY of
                (dY, h2) \<Rightarrow>
                  if int (length polys) \<noteq> dY + 1 then (Inl ValueError, h2)
                  else
                    (case ambient B h2 X of
                       (aX, h3) \<Rightarrow>
                         if fb_ngens F polys \<noteq> sp_dim (ambient_space (h3 ! aX)) + 1
                         then (Inl ValueError, h3)
                         else
                           (let polys' = fb_subs F (ambient_space (h3 ! aX)) polys in
                            case fb_morphism_init F (ambient_space (h3 ! X))
                                   (ambient_space (h3 ! Y)) polys' of
                              Some e \<Rightarrow> (Inl e, h3)
                            | None \<Rightarrow>
                                (let degs = map (b_poly_degree B)
                                              (filter (\<lambda>pol. \<not> fb_is_zero F pol) polys') in
                                 if degs = [] then (Inl ValueError, h3)
                                 else if foldr max degs (hd degs) \<noteq> foldr min degs (hd degs)
                                 then (Inl AssertionError, h3)
                                 else
                                   (case dimension B h3 Y of
                                      (d, h4) \<Rightarrow>
                                        (Inr \<lparr>source = X, target = Y, forms = polys',
                                              degree_Forms = foldr max degs (hd degs),
                                              is_isomorphism = None, is_birational = None,
                                              is_dominant = (if d < 0 then Some True else None),
                                              is_morphism = None, inverse_rational_map = None,
                                              projective_degrees_list = None\<rparr>, h4))))))))"

text \<open>
  \<open>compose(f)\<close>, for \<open>f\<close> of this class: the product \<open>f * self\<close>, a new map from the source of
  \<open>self\<close> to the target of \<open>f\<close>, and each flag set to true when it is true on both maps.
\<close>

definition compose ::
  "('p, 'r) backend \<Rightarrow> 'p forms_backend \<Rightarrow> 'p heap \<times> 'p rational_map list \<Rightarrow> nat \<Rightarrow> nat
     \<Rightarrow> (error + nat) \<times> 'p heap \<times> 'p rational_map list" where
  "compose B F st self f =
     (case st of
        (h, ms) \<Rightarrow>
          (case fb_compose F (forms (ms ! self)) (forms (ms ! f)) of
             Inl e \<Rightarrow> (Inl e, h, ms)
           | Inr polys \<Rightarrow>
               (case Rational_map_between_embedded_projective_varieties B F h
                       (source (ms ! self)) (target (ms ! f)) polys of
                  (Inl e, h1) \<Rightarrow> (Inl e, h1, ms)
                | (Inr g, h1) \<Rightarrow>
                    (let g1 = (if is_isomorphism (ms ! self) = Some True \<and> is_isomorphism (ms ! f) = Some True
                               then g\<lparr>is_isomorphism := Some True\<rparr> else g);
                         g2 = (if is_birational (ms ! self) = Some True \<and> is_birational (ms ! f) = Some True
                               then g1\<lparr>is_birational := Some True\<rparr> else g1);
                         g3 = (if is_dominant (ms ! self) = Some True \<and> is_dominant (ms ! f) = Some True
                               then g2\<lparr>is_dominant := Some True\<rparr> else g2);
                         g4 = (if is_morphism (ms ! self) = Some True \<and> is_morphism (ms ! f) = Some True
                               then g3\<lparr>is_morphism := Some True\<rparr> else g3)
                     in (Inr (length ms), h1, ms @ [g4])))))"





section \<open>Congruences of secant curves: \<open>Hodge_special_fourfold.congruence\<close>\<close>

text \<open>
  What \<open>function_congruence\<close> looks at in a candidate curve \<open>C\<close>: its dimension and
  degree, the dimension and degree of \<open>C.intersection(self.surface())\<close>, and whether the
  point lies on it.
\<close>

record curve =
  c_dimension :: int
  c_degree :: int
  c_surface_dimension :: int
  c_surface_degree :: int
  c_contains_point :: bool

text \<open>
  What the geometry gives for a point \<open>p\<close>: whether \<open>p\<close> is a point of the ambient
  fivefold, and the curves \<open>f.inverse_image(q.linear_span())\<close>, one for each line \<open>q\<close> of
  the decomposition \<open>D\<close> of the cone of lines (or the exception raised on the way).
\<close>

record trial =
  t_is_point_on_fivefold :: bool
  t_curves :: "error + curve list"

text \<open>
  The methods \<open>congruence\<close> rests on, as parameters acting on the state \<open>'w\<close> of everything
  but the fourfold's memo: \<open>map_from_fivefold\<close> (its exception, if any), the sampling of a
  point of the ambient fivefold, and the geometry of a trial.
\<close>

record ('pt, 'w) congruence_methods =
  cg_map_from_fivefold :: "'w \<Rightarrow> error option \<times> 'w"
  cg_point :: "'w \<Rightarrow> (error + 'pt) \<times> 'w"
  cg_trial :: "'pt \<Rightarrow> 'w \<Rightarrow> trial \<times> 'w"

text \<open>
  The fourfold: \<open>_degree_as_hypersurface\<close>, and the attribute
  \<open>_possible_degrees_for_curves_of_congruence\<close> (\<open>None\<close> while absent; a Python set, here a
  list without repetition).
\<close>

record 'w fourfold =
  degree_as_hypersurface :: int
  possible_degrees_for_curves_of_congruence :: "int list option"
  world :: 'w

text \<open>
  The list \<open>W\<close>: for each degree \<open>d\<close>, the curves of dimension 1 and degree \<open>d\<close> that meet
  the surface in a scheme of dimension 0 and degree \<open>d * a - 1\<close>, kept when there is
  exactly one.
\<close>

definition secant_candidates :: "int \<Rightarrow> curve list \<Rightarrow> int list \<Rightarrow> curve list" where
  "secant_candidates a curves degs =
     concat (map (\<lambda>d.
        (let E = filter (\<lambda>C. (c_dimension C, c_degree C) = (1, d)
                            \<and> (c_surface_dimension C, c_surface_degree C) = (0, d * a - 1))
                   curves
         in if length E = 1 then E else [])) degs)"

text \<open>
  The inner function \<open>function_congruence(p, degree)\<close>, statement by statement. The
  second argument bounds the depth of the recursion, as the interpreter does.
\<close>

fun function_congruence ::
  "('pt, 'w) congruence_methods \<Rightarrow> nat \<Rightarrow> 'pt \<Rightarrow> int option \<Rightarrow> 'w fourfold
     \<Rightarrow> (error + curve) \<times> 'w fourfold" where
  "function_congruence E 0 p deg X = (Inl RecursionError, X)"
| "function_congruence E (Suc n) p deg X =
     (if deg = None \<and> possible_degrees_for_curves_of_congruence X = Some []
      then (Inl Exception, X)
      else
        (case cg_trial E p (world X) of
           (t, w1) \<Rightarrow>
             (let X1 = X\<lparr>world := w1\<rparr> in
              if \<not> t_is_point_on_fivefold t then (Inl Exception, X1)
              else
                (case t_curves t of
                   Inl e \<Rightarrow> (Inl e, X1)
                 | Inr curves \<Rightarrow>
                     if length curves = 0
                     then (Inl Exception, X1\<lparr>possible_degrees_for_curves_of_congruence := Some []\<rparr>)
                     else
                       (let degs0 = (case deg of
                                       None \<Rightarrow> map c_degree curves
                                     | Some d \<Rightarrow> [d]);
                            degs = (case (deg, possible_degrees_for_curves_of_congruence X1) of
                                      (None, Some P) \<Rightarrow> filter (\<lambda>d. d \<in> set P) (remdups degs0)
                                    | _ \<Rightarrow> degs0)
                        in
                        if deg = None \<and> possible_degrees_for_curves_of_congruence X1 \<noteq> None
                           \<and> length degs = 0
                        then (Inl Exception, X1)
                        else
                          (let W = secant_candidates (degree_as_hypersurface X1) curves degs in
                           if deg = None \<and> length W > 1 then
                             (let P' = (case possible_degrees_for_curves_of_congruence X1 of
                                          None \<Rightarrow> remdups (map c_degree W)
                                        | Some P \<Rightarrow>
                                            filter (\<lambda>d. d \<in> set (map c_degree W)) P);
                                  X2 = X1\<lparr>possible_degrees_for_curves_of_congruence := Some P'\<rparr>
                              in
                              if possible_degrees_for_curves_of_congruence X1 \<noteq> None
                                 \<and> length P' = 0
                              then (Inl Exception, X2)
                              else
                                (case cg_point E (world X2) of
                                   (Inl e, w2) \<Rightarrow> (Inl e, X2\<lparr>world := w2\<rparr>)
                                 | (Inr p', w2) \<Rightarrow>
                                     function_congruence E n p' None (X2\<lparr>world := w2\<rparr>)))
                           else if length W = 0 then (Inl Exception, X1)
                           else if \<not> c_contains_point (hd W) then (Inl AssertionError, X1)
                           else
                             (Inr (hd W),
                              X1\<lparr>possible_degrees_for_curves_of_congruence :=
                                    Some (remdups (map c_degree W))\<rparr>)))))))"

text \<open>\<open>check(i)\<close> of the congruence: \<open>i\<close> more points, each sent to its curve.\<close>

fun congruence_check ::
  "('pt, 'w) congruence_methods \<Rightarrow> nat \<Rightarrow> nat \<Rightarrow> int \<Rightarrow> 'w fourfold
     \<Rightarrow> error option \<times> 'w fourfold" where
  "congruence_check E fuel 0 d X = (None, X)"
| "congruence_check E fuel (Suc j) d X =
     (case cg_point E (world X) of
        (Inl e, w1) \<Rightarrow> (Some e, X\<lparr>world := w1\<rparr>)
      | (Inr p, w1) \<Rightarrow>
          (case function_congruence E fuel p (Some d) (X\<lparr>world := w1\<rparr>) of
             (Inl e, X1) \<Rightarrow> (Some e, X1)
           | (Inr C, X1) \<Rightarrow> congruence_check E fuel j d X1))"

text \<open>
  \<open>congruence(degree, num_checks, point)\<close> with the default algorithms: every exception of
  \<open>function_congruence\<close> and of the check is raised again as \<open>Exception\<close>. The result is
  the degree of the curves of the congruence.
\<close>

definition congruence ::
  "('pt, 'w) congruence_methods \<Rightarrow> nat \<Rightarrow> int option \<Rightarrow> nat \<Rightarrow> 'pt option \<Rightarrow> 'w fourfold
     \<Rightarrow> (error + int) \<times> 'w fourfold" where
  "congruence E fuel deg num_checks point X =
     (case cg_map_from_fivefold E (world X) of
        (Some e, w1) \<Rightarrow> (Inl e, X\<lparr>world := w1\<rparr>)
      | (None, w1) \<Rightarrow>
          (case (case point of
                   None \<Rightarrow> cg_point E w1
                 | Some p \<Rightarrow> (Inr p, w1)) of
             (Inl e, w2) \<Rightarrow> (Inl e, X\<lparr>world := w2\<rparr>)
           | (Inr p, w2) \<Rightarrow>
               (case function_congruence E fuel p deg (X\<lparr>world := w2\<rparr>) of
                  (Inl e, X1) \<Rightarrow> (Inl Exception, X1)
                | (Inr Curve, X1) \<Rightarrow>
                    (case congruence_check E fuel num_checks (c_degree Curve) X1 of
                       (Some e, X2) \<Rightarrow> (Inl Exception, X2)
                     | (None, X2) \<Rightarrow> (Inr (c_degree Curve), X2)))))"

text \<open>
  \<open>inverse\<close> rests on the external computer-algebra service and on methods of the two
  classes, taken as parameters acting on the two heaps and a state \<open>'w\<close> of everything
  else:

  \<^item> \<open>br_macaulay2 self\<close> is \<open>macaulay2(self)\<close> (its exception, if any);
  \<^item> \<open>br_inverse self\<close> is the service's \<open>inverse\<close> of the map, or its exception;
  \<^item> \<open>br_from_macaulay2map g S T\<close> is \<open>_from_macaulay2map_to_sagemap(g, S, T)\<close>, a
    reference to a map (one it creates, or the map the service's object stands for);
  \<^item> \<open>br_point X\<close> is \<open>X.point(verbose=False, algorithm=algorithm)\<close>;
  \<^item> \<open>br_call m Z\<close> is \<open>m(Z)\<close>, the image of a variety by a map.
\<close>

record ('p, 'w, 'g) bridge =
  br_macaulay2 :: "nat \<Rightarrow> 'p heap \<times> 'p rational_map list \<times> 'w
                     \<Rightarrow> error option \<times> 'p heap \<times> 'p rational_map list \<times> 'w"
  br_inverse :: "nat \<Rightarrow> 'p heap \<times> 'p rational_map list \<times> 'w
                   \<Rightarrow> (error + 'g) \<times> 'p heap \<times> 'p rational_map list \<times> 'w"
  br_from_macaulay2map :: "'g \<Rightarrow> nat \<Rightarrow> nat \<Rightarrow> 'p heap \<times> 'p rational_map list \<times> 'w
                   \<Rightarrow> (error + nat) \<times> 'p heap \<times> 'p rational_map list \<times> 'w"
  br_point :: "nat \<Rightarrow> 'p heap \<times> 'p rational_map list \<times> 'w
                   \<Rightarrow> (error + nat) \<times> 'p heap \<times> 'p rational_map list \<times> 'w"
  br_call :: "nat \<Rightarrow> nat \<Rightarrow> 'p heap \<times> 'p rational_map list \<times> 'w
                   \<Rightarrow> (error + nat) \<times> 'p heap \<times> 'p rational_map list \<times> 'w"

text \<open>\<open>p = X.point(...)\<close> followed by the test \<open>m2(m1(p)) == p\<close>.\<close>

definition sampled_round_trip ::
  "('p, 'r) backend \<Rightarrow> ('p, 'w, 'g) bridge \<Rightarrow> nat \<Rightarrow> nat \<Rightarrow> nat
     \<Rightarrow> 'p heap \<times> 'p rational_map list \<times> 'w
     \<Rightarrow> (error + bool) \<times> 'p heap \<times> 'p rational_map list \<times> 'w" where
  "sampled_round_trip B R X m1 m2 st =
     (case br_point R X st of
        (Inl e, st1) \<Rightarrow> (Inl e, st1)
      | (Inr p, st1) \<Rightarrow>
          (case br_call R m1 p st1 of
             (Inl e, st2) \<Rightarrow> (Inl e, st2)
           | (Inr y, st2) \<Rightarrow>
               (case br_call R m2 y st2 of
                  (Inl e, st3) \<Rightarrow> (Inl e, st3)
                | (Inr z, st3) \<Rightarrow> (Inr (eq B (fst st3) z p), st3))))"

text \<open>
  The block \<open>if check:\<close> of \<open>inverse\<close>: the two round trips, asserted; then
  \<open>self._is_birational = True\<close>, the assertion on the flag of \<open>g\<close>, and the two
  assignments of \<open>_inverse_rational_map\<close>.
\<close>

definition inverse_check ::
  "('p, 'r) backend \<Rightarrow> ('p, 'w, 'g) bridge \<Rightarrow> nat \<Rightarrow> nat
     \<Rightarrow> 'p heap \<times> 'p rational_map list \<times> 'w
     \<Rightarrow> (error + nat) \<times> 'p heap \<times> 'p rational_map list \<times> 'w" where
  "inverse_check B R self g st =
     (case sampled_round_trip B R (source (fst (snd st) ! self)) self g st of
        (Inl e, st1) \<Rightarrow> (Inl e, st1)
      | (Inr False, st1) \<Rightarrow> (Inl AssertionError, st1)
      | (Inr True, st1) \<Rightarrow>
          (case sampled_round_trip B R (target (fst (snd st1) ! self)) g self st1 of
             (Inl e, st2) \<Rightarrow> (Inl e, st2)
           | (Inr False, st2) \<Rightarrow> (Inl AssertionError, st2)
           | (Inr True, h2, ms2, w2) \<Rightarrow>
               (let ms3 = ms2[self := (ms2 ! self)\<lparr>is_birational := Some True\<rparr>] in
                if is_birational (ms3 ! g) \<noteq> Some True then (Inl AssertionError, h2, ms3, w2)
                else
                  (let ms4 = ms3[g := (ms3 ! g)\<lparr>inverse_rational_map := Some self\<rparr>];
                       ms5 = ms4[self := (ms4 ! self)\<lparr>inverse_rational_map := Some g\<rparr>]
                   in (Inr g, h2, ms5, w2)))))"

text \<open>
  The first test of \<open>inverse\<close>: an unresolved \<open>_is_birational\<close> becomes false when the
  dimensions of source and target differ (the dimensions are asked for only then).
\<close>

definition resolve_birational ::
  "('p, 'r) backend \<Rightarrow> 'p heap \<Rightarrow> 'p rational_map list \<Rightarrow> nat
     \<Rightarrow> 'p heap \<times> 'p rational_map list" where
  "resolve_birational B h ms self =
     (if is_birational (ms ! self) = None
      then (case dimension B h (source (ms ! self)) of
              (ds, ha) \<Rightarrow>
                (case dimension B ha (target (ms ! self)) of
                   (dt, hb) \<Rightarrow>
                     if ds \<noteq> dt
                     then (hb, ms[self := (ms ! self)\<lparr>is_birational := Some False\<rparr>])
                     else (hb, ms)))
      else (h, ms))"

text \<open>
  \<open>inverse(check, algorithm)\<close>: the cached inverse when there is one; \<open>ValueError\<close> when a
  flag says the map is not birational or not dominant; else the service's inverse,
  converted, with source and target asserted, and checked when \<open>check\<close> is set.
\<close>

definition inverse ::
  "('p, 'r) backend \<Rightarrow> ('p, 'w, 'g) bridge \<Rightarrow> 'p heap \<times> 'p rational_map list \<times> 'w
     \<Rightarrow> nat \<Rightarrow> bool \<Rightarrow> string
     \<Rightarrow> (error + nat) \<times> 'p heap \<times> 'p rational_map list \<times> 'w" where
  "inverse B R st self check algorithm =
     (case st of
        (h, ms, w) \<Rightarrow>
          (case inverse_rational_map (ms ! self) of
             Some g \<Rightarrow> (Inr g, st)
           | None \<Rightarrow>
               (case resolve_birational B h ms self of
                  (h1, ms1) \<Rightarrow>
                    if is_birational (ms1 ! self) = Some False \<or> is_dominant (ms1 ! self) = Some False
                    then (Inl ValueError, h1, ms1, w)
                    else if algorithm \<noteq> ''macaulay2'' then (Inl NotImplementedError, h1, ms1, w)
                    else
                      (case br_macaulay2 R self (h1, ms1, w) of
                         (Some e, st2) \<Rightarrow> (Inl e, st2)
                       | (None, st2) \<Rightarrow>
                           (case br_inverse R self st2 of
                              (Inl e, st3) \<Rightarrow> (Inl Exception, st3)
                            | (Inr g', st3) \<Rightarrow>
                                (case br_from_macaulay2map R g'
                                        (target (fst (snd st3) ! self))
                                        (source (fst (snd st3) ! self)) st3 of
                                   (Inl e, st4) \<Rightarrow> (Inl e, st4)
                                 | (Inr g, st4) \<Rightarrow>
                                     if \<not> (source (fst (snd st4) ! g) = target (fst (snd st4) ! self)
                                           \<and> target (fst (snd st4) ! g) = source (fst (snd st4) ! self))
                                     then (Inl AssertionError, st4)
                                     else if \<not> check then (Inr g, st4)
                                     else inverse_check B R self g st4))))))"

text \<open>
  The rule of the specification for a flag of a composite: true when the flag of both
  maps is true, else unresolved.
\<close>

definition compose_flag_rule :: "bool option \<Rightarrow> bool option \<Rightarrow> bool option \<Rightarrow> bool" where
  "compose_flag_rule a b c \<longleftrightarrow> c = (if a = Some True \<and> b = Some True then Some True else None)"

section \<open>A backend for monomial ideals on the projective line\<close>

text \<open>
  A small instance of the backend, used to run the model on concrete inputs: the
  coordinate ring \<open>K[x0, x1]\<close> of the projective line, a polynomial given by its support
  (the list of the exponent pairs \<open>(a, b)\<close> of its monomials \<open>x0^a * x1^b\<close>; the zero
  polynomial is the empty list). The ideal operations are those of monomial ideals, and
  are exact on ideals all of whose generators are monomials.
\<close>

type_synonym lpoly = "(nat \<times> nat) list"

definition line :: pspace where
  "line = \<lparr>sp_dim = 1, sp_field = 101, sp_var = ''x''\<rparr>"

text \<open>The monomial generator \<open>g\<close> divides the monomial \<open>m\<close>.\<close>

definition lp_divides :: "lpoly \<Rightarrow> nat \<times> nat \<Rightarrow> bool" where
  "lp_divides g m = (case g of [(a, b)] \<Rightarrow> a \<le> fst m \<and> b \<le> snd m | _ \<Rightarrow> False)"

definition lp_member :: "pspace \<Rightarrow> lpoly \<Rightarrow> lpoly list \<Rightarrow> bool" where
  "lp_member sp p G = list_all (\<lambda>m. list_ex (\<lambda>g. lp_divides g m) G) p"

definition lp_monos :: "lpoly list \<Rightarrow> (nat \<times> nat) list" where
  "lp_monos G = concat (filter (\<lambda>g. length g = 1) G)"

text \<open>
  The dimension of the subscheme of the line: \<open>1\<close> for the zero ideal, \<open>-2\<close> for the unit
  ideal (the ideal's dimension \<open>-1\<close>, less one), \<open>-1\<close> when a power of each variable is a
  generator, else \<open>0\<close>.
\<close>

definition lp_dimension :: "pspace \<Rightarrow> lpoly list \<Rightarrow> int" where
  "lp_dimension sp G =
     (let M = lp_monos G in
      if M = [] then 1
      else if list_ex (\<lambda>m. m = (0, 0)) M then - 2
      else if list_ex (\<lambda>m. snd m = 0) M \<and> list_ex (\<lambda>m. fst m = 0) M then - 1
      else 0)"

text \<open>
  The degree of the subscheme: \<open>1\<close> for the line, and for the principal ideal
  \<open>(x0^a * x1^b)\<close> the degree \<open>a + b\<close> of its generator.
\<close>

definition lp_degree :: "pspace \<Rightarrow> lpoly list \<Rightarrow> int" where
  "lp_degree sp G =
     (case lp_monos G of [] \<Rightarrow> 1 | [(a, b)] \<Rightarrow> int (a + b) | _ \<Rightarrow> 0)"

text \<open>
  Saturation by \<open>(x0, x1)\<close>: the intersection of \<open>I : x0^\<infinity>\<close> and \<open>I : x1^\<infinity>\<close>, which for a
  monomial ideal is generated by \<open>x0^a * x1^b\<close> with \<open>a\<close> and \<open>b\<close> the least exponents of
  \<open>x0\<close> and of \<open>x1\<close> among the generators.
\<close>

definition lp_saturation :: "pspace \<Rightarrow> lpoly list \<Rightarrow> lpoly list" where
  "lp_saturation sp G =
     (case lp_monos G of
        [] \<Rightarrow> []
      | m # M \<Rightarrow> [[(foldr min (map fst M) (fst m), foldr min (map snd M) (snd m))]])"

definition lp_intersection :: "pspace \<Rightarrow> lpoly list \<Rightarrow> lpoly list \<Rightarrow> lpoly list" where
  "lp_intersection sp G H =
     concat (map (\<lambda>m. map (\<lambda>m'. [(max (fst m) (fst m'), max (snd m) (snd m'))]) (lp_monos H))
               (lp_monos G))"

definition lp_minbase :: "pspace \<Rightarrow> lpoly list \<Rightarrow> lpoly list" where
  "lp_minbase sp G =
     (let M = remdups (lp_monos G) in
      map (\<lambda>m. [m]) (filter (\<lambda>m. \<not> list_ex (\<lambda>m'. m' \<noteq> m \<and> lp_divides [m'] m) M) M))"

definition lp_poly_degree :: "lpoly \<Rightarrow> int" where
  "lp_poly_degree p = (case p of [] \<Rightarrow> - 1 | m # _ \<Rightarrow> int (fst m + snd m))"

text \<open>The generators of \<open>g * (x0, x1)^k\<close>: \<open>g\<close> times each monomial of degree \<open>k\<close>.\<close>

definition lp_shift :: "pspace \<Rightarrow> lpoly \<Rightarrow> nat \<Rightarrow> lpoly list" where
  "lp_shift sp g k = map (\<lambda>i. map (\<lambda>m. (fst m + i, snd m + (k - i))) g) [0..<Suc k]"

text \<open>
  A linear combination with random coefficients, none of them zero and with no
  cancellation: its support is the union of the supports. The generator's state counts
  the coefficients drawn.
\<close>

definition lp_random_combination :: "lpoly list \<Rightarrow> nat \<Rightarrow> lpoly \<times> nat" where
  "lp_random_combination Bs r = (remdups (concat Bs), r + length Bs)"

definition line_backend :: "(lpoly, nat) backend" where
  "line_backend =
     \<lparr>b_member = lp_member, b_dimension = lp_dimension, b_degree = lp_degree,
      b_saturation = lp_saturation, b_intersection = lp_intersection,
      b_minbase = lp_minbase, b_one = (\<lambda>sp. [(0, 0)]), b_poly_degree = lp_poly_degree,
      b_shift = lp_shift, b_random_combination = lp_random_combination\<rparr>"

text \<open>
  Two subschemes of the line with the same support, the point \<open>[0 : 1]\<close>: at reference 0
  the one defined by \<open>x0^2, x0 * x1\<close> (an ideal that is not saturated), at reference 1 the
  one defined by \<open>x0\<close>.
\<close>

definition two_points :: "lpoly heap" where
  "two_points =
     [Embedded_projective_variety line [[(2, 0)], [(1, 1)]],
      Embedded_projective_variety line [[(1, 0)]]]"



section \<open>Heaps: what the methods leave unchanged\<close>

text \<open>
  The methods only attach attributes and allocate objects: the ambient space and the
  defining polynomials of the existing objects stay as they are.
\<close>

definition same_data :: "'p heap \<Rightarrow> 'p heap \<Rightarrow> bool" where
  "same_data h h' \<longleftrightarrow>
     length h \<le> length h' \<and>
     (\<forall>i < length h. ambient_space (h' ! i) = ambient_space (h ! i)
                    \<and> defining_polynomials (h' ! i) = defining_polynomials (h ! i)
                    \<and> homogeneous_components_ideal (h' ! i) = homogeneous_components_ideal (h ! i))"




text \<open>
  Three subschemes of the line: the point \<open>[0 : 1]\<close> (\<open>x0 = 0\<close>), the point \<open>[1 : 0]\<close>
  (\<open>x1 = 0\<close>) and the two points together (\<open>x0 * x1 = 0\<close>).
\<close>

definition three_points :: "lpoly heap" where
  "three_points =
     [Embedded_projective_variety line [[(1, 0)]],
      Embedded_projective_variety line [[(0, 1)]],
      Embedded_projective_variety line [[(1, 1)]]]"

text \<open>
  A line of the projective plane, \<open>x0 = 0\<close>, whose dimension and codimension are cached;
  and methods for which no hyperplane section has a rational point: a section is a new
  object, with no component.
\<close>

definition plane :: pspace where
  "plane = \<lparr>sp_dim = 2, sp_field = 101, sp_var = ''x''\<rparr>"

definition plane_line :: "lpoly heap" where
  "plane_line =
     [\<lparr>ambient_space = plane, defining_polynomials = [[(1, 0)]], dimension_attr = Some 1,
       codimension_attr = Some 1, ambient_attr = None, degree_attr = None,
       homogeneous_components_ideal = []\<rparr>]"

definition no_point_methods :: "(lpoly, nat, unit) methods" where
  "no_point_methods =
     \<lparr>m_hyperplane_section =
        (\<lambda>x cache (h, r).
           (Inr (length h), h @ [Embedded_projective_variety (ambient_space (h ! x)) []], Suc r)),
      m_irreducible_components = (\<lambda>X st. (Inr [], st)),
      m_is_point = (\<lambda>q st. (False, st)),
      m_embedding = (\<lambda>X q st. (Inr q, st)),
      m_random_projection = (\<lambda>x st. (Inl NotImplementedError, st)),
      m_image = (\<lambda>f st. (Inl NotImplementedError, st)),
      m_inverse_image = (\<lambda>f q st. (Inl NotImplementedError, st))\<rparr>"

text \<open>
  Forms on the line: the support of a product, of a power, and of a form after the
  substitution of two forms for the variables (with no cancellation); the composite of two
  maps of the line is the substitution of the forms of the first into those of the second.
\<close>

definition lp_mul :: "lpoly \<Rightarrow> lpoly \<Rightarrow> lpoly" where
  "lp_mul p q = remdups (concat (map (\<lambda>m. map (\<lambda>m'. (fst m + fst m', snd m + snd m')) q) p))"

fun lp_power :: "lpoly \<Rightarrow> nat \<Rightarrow> lpoly" where
  "lp_power p 0 = [(0, 0)]"
| "lp_power p (Suc k) = lp_mul p (lp_power p k)"

definition lp_subst :: "lpoly \<Rightarrow> lpoly \<Rightarrow> lpoly \<Rightarrow> lpoly" where
  "lp_subst p0 p1 q =
     remdups (concat (map (\<lambda>m. lp_mul (lp_power p0 (fst m)) (lp_power p1 (snd m))) q))"

definition lp_compose :: "lpoly list \<Rightarrow> lpoly list \<Rightarrow> error + lpoly list" where
  "lp_compose s f = (case s of [p0, p1] \<Rightarrow> Inr (map (lp_subst p0 p1) f) | _ \<Rightarrow> Inl TypeError)"

definition line_forms :: "lpoly forms_backend" where
  "line_forms =
     \<lparr>fb_ngens = (\<lambda>polys. 2), fb_subs = (\<lambda>sp polys. polys),
      fb_morphism_init = (\<lambda>X Y polys. None), fb_is_zero = (\<lambda>p. p = []),
      fb_compose = lp_compose\<rparr>"

text \<open>
  The line (reference 0) and its empty subscheme (reference 1); and three maps from the
  line: the identity with every flag true, the squaring map \<open>[x0^2, x1^2]\<close> with no flag
  resolved, and the map to the empty subscheme, dominant as the constructor makes it.
\<close>

definition line_and_empty :: "lpoly heap" where
  "line_and_empty =
     [Embedded_projective_variety line [], Embedded_projective_variety line [[(0, 0)]]]"

definition three_maps :: "lpoly rational_map list" where
  "three_maps =
     [\<lparr>source = 0, target = 0, forms = [[(1, 0)], [(0, 1)]], degree_Forms = 1,
       is_isomorphism = Some True, is_birational = Some True, is_dominant = Some True,
       is_morphism = Some True, inverse_rational_map = None, projective_degrees_list = None\<rparr>,
      \<lparr>source = 0, target = 0, forms = [[(2, 0)], [(0, 2)]], degree_Forms = 2,
       is_isomorphism = None, is_birational = None, is_dominant = None,
       is_morphism = None, inverse_rational_map = None, projective_degrees_list = None\<rparr>,
      \<lparr>source = 0, target = 1, forms = [[(1, 0)], [(0, 1)]], degree_Forms = 1,
       is_isomorphism = None, is_birational = None, is_dominant = Some True,
       is_morphism = None, inverse_rational_map = None, projective_degrees_list = None\<rparr>]"


text \<open>
  A cubic fourfold (\<open>_degree_as_hypersurface = 3\<close>, a congruence is of \<open>3d - 1\<close>-secant
  curves) with no memo yet. In the first setting every point has one line through it,
  meeting the surface in one point: no candidate passes the filter. In the second the
  cone of lines is empty. The state counts the trials computed.
\<close>

definition one_secant_line :: curve where
  "one_secant_line =
     \<lparr>c_dimension = 1, c_degree = 1, c_surface_dimension = 0, c_surface_degree = 1,
      c_contains_point = True\<rparr>"

definition no_secant_methods :: "(nat, nat) congruence_methods" where
  "no_secant_methods =
     \<lparr>cg_map_from_fivefold = (\<lambda>w. (None, w)),
      cg_point = (\<lambda>w. (Inr w, w)),
      cg_trial = (\<lambda>p w. (\<lparr>t_is_point_on_fivefold = True, t_curves = Inr [one_secant_line]\<rparr>,
                           Suc w))\<rparr>"

definition no_line_methods :: "(nat, nat) congruence_methods" where
  "no_line_methods =
     \<lparr>cg_map_from_fivefold = (\<lambda>w. (None, w)),
      cg_point = (\<lambda>w. (Inr w, w)),
      cg_trial = (\<lambda>p w. (\<lparr>t_is_point_on_fivefold = True, t_curves = Inr []\<rparr>, Suc w))\<rparr>"

definition cubic_fourfold :: "nat fourfold" where
  "cubic_fourfold =
     \<lparr>degree_as_hypersurface = 3, possible_degrees_for_curves_of_congruence = None, world = 0\<rparr>"

text \<open>
  The inclusion of the point \<open>x0 = 0\<close> (reference 0 of \<open>three_points\<close>) into the two points
  \<open>x0 * x1 = 0\<close> (reference 2): birational onto one component, not dominant. The service
  answers with a map back, flagged birational; every sampled point is the point
  \<open>x0 = 0\<close>, and both maps, given by the coordinates, send a subscheme to itself.
  \<open>inverted_maps\<close> is the heap of maps after \<open>inverse()\<close> has succeeded on the inclusion
  and its dominance has then been resolved to false.
\<close>

definition inclusion_bridge :: "(lpoly, unit, unit) bridge" where
  "inclusion_bridge =
     \<lparr>br_macaulay2 = (\<lambda>self st. (None, st)),
      br_inverse = (\<lambda>self st. (Inr (), st)),
      br_from_macaulay2map =
        (\<lambda>g' S T (h, ms, w).
           (Inr (length ms), h,
            ms @ [\<lparr>source = S, target = T, forms = [[(1, 0)], [(0, 1)]], degree_Forms = 1,
                   is_isomorphism = None, is_birational = Some True, is_dominant = None,
                   is_morphism = None, inverse_rational_map = None,
                   projective_degrees_list = None\<rparr>], w)),
      br_point = (\<lambda>X st. (Inr 0, st)),
      br_call = (\<lambda>m Z st. (Inr Z, st))\<rparr>"

definition inclusion_map :: "lpoly rational_map list" where
  "inclusion_map =
     [\<lparr>source = 0, target = 2, forms = [[(1, 0)], [(0, 1)]], degree_Forms = 1,
       is_isomorphism = None, is_birational = None, is_dominant = None,
       is_morphism = None, inverse_rational_map = None, projective_degrees_list = None\<rparr>]"

definition inverted_maps :: "lpoly rational_map list" where
  "inverted_maps =
     [\<lparr>source = 0, target = 2, forms = [[(1, 0)], [(0, 1)]], degree_Forms = 1,
       is_isomorphism = None, is_birational = Some True, is_dominant = Some False,
       is_morphism = None, inverse_rational_map = Some 1, projective_degrees_list = None\<rparr>,
      \<lparr>source = 2, target = 0, forms = [[(1, 0)], [(0, 1)]], degree_Forms = 1,
       is_isomorphism = None, is_birational = Some True, is_dominant = None,
       is_morphism = None, inverse_rational_map = Some 0, projective_degrees_list = None\<rparr>]"

lemmas m_defs = compose_def Rational_map_between_embedded_projective_varieties_def
  line_forms_def lp_compose_def lp_subst_def lp_mul_def line_and_empty_def three_maps_def

lemmas lb_defs = line_backend_def lp_member_def lp_divides_def lp_monos_def lp_dimension_def
  lp_saturation_def lp_intersection_def lp_minbase_def lp_poly_degree_def lp_shift_def
  lp_random_combination_def lp_degree_def line_def

lemmas v_defs = dimension_def codimension_def ambient_def alloc_def empty_def is_subset_def
  eq_def ne_def intersection_def union_def Embedded_projective_variety_def Let_def
  homogeneous_component_def random_def

lemma same_data_refl: "same_data h h"
  by (simp add: same_data_def)

lemma same_data_trans: "same_data h h1 \<Longrightarrow> same_data h1 h2 \<Longrightarrow> same_data h h2"
  by (auto simp: same_data_def)

lemma same_data_update:
  assumes "ambient_space v = ambient_space (h ! x)"
    and "defining_polynomials v = defining_polynomials (h ! x)"
    and "homogeneous_components_ideal v = homogeneous_components_ideal (h ! x)"
  shows "same_data h (h[x := v])"
proof -
  have "ambient_space (h[x := v] ! i) = ambient_space (h ! i)
      \<and> defining_polynomials (h[x := v] ! i) = defining_polynomials (h ! i)
      \<and> homogeneous_components_ideal (h[x := v] ! i) = homogeneous_components_ideal (h ! i)"
    if "i < length h" for i
    using that assms by (cases "x = i") simp_all
  then show ?thesis by (simp add: same_data_def)
qed

lemma same_data_alloc: "same_data h (snd (alloc h v))"
  by (simp add: same_data_def alloc_def nth_append)

lemma dimension_same: "same_data h (snd (dimension B h x))"
  by (auto simp: dimension_def Let_def same_data_refl intro!: same_data_update split: option.splits)

lemma codimension_same: "same_data h (snd (codimension B h x))"
proof (cases "codimension_attr (h ! x)")
  case (Some c)
  then show ?thesis by (simp add: codimension_def same_data_refl)
next
  case None
  obtain d h1 where d: "dimension B h x = (d, h1)" by (cases "dimension B h x")
  have 1: "same_data h h1" using dimension_same [of h B x] d by simp
  have 2: "same_data h1 (h1[x := (h1 ! x)\<lparr>codimension_attr := Some (int (sp_dim (ambient_space (h1 ! x))) - d)\<rparr>])"
    by (rule same_data_update) simp_all
  show ?thesis using None d same_data_trans [OF 1 2] by (simp add: codimension_def Let_def)
qed

lemma ambient_same: "same_data h (snd (ambient B h x))"
proof (cases "ambient_attr (h ! x)")
  case (Some c)
  then show ?thesis by (simp add: ambient_def same_data_refl)
next
  case None
  obtain c h1 where c: "codimension B h x = (c, h1)" by (cases "codimension B h x")
  have 1: "same_data h h1" using codimension_same [of h B x] c by simp
  show ?thesis
  proof (cases "c = 0")
    case True
    have 2: "same_data h1 (h1[x := (h1 ! x)\<lparr>ambient_attr := Some x\<rparr>])"
      by (rule same_data_update) simp_all
    show ?thesis using None c True same_data_trans [OF 1 2] by (simp add: ambient_def)
  next
    case False
    let ?v = "Embedded_projective_variety (ambient_space (h1 ! x)) []"
    let ?h2 = "h1 @ [?v]"
    have 2: "same_data h1 ?h2" using same_data_alloc [of h1 ?v] by (simp add: alloc_def)
    have 3: "same_data ?h2 (?h2[x := (?h2 ! x)\<lparr>ambient_attr := Some (length h1)\<rparr>])"
      by (rule same_data_update) simp_all
    show ?thesis using None c False same_data_trans [OF 1 same_data_trans [OF 2 3]]
      by (simp add: ambient_def alloc_def)
  qed
qed

lemma is_subset_same:
  assumes "same_data h h'" and "x < length h" and "y < length h"
  shows "is_subset B h' x y = is_subset B h x y"
  using assms by (simp add: is_subset_def same_data_def)


lemma dimension_length: "length (snd (dimension B h x)) = length h"
  by (simp add: dimension_def Let_def split: option.splits)







lemma dimension_other: "i \<noteq> x \<Longrightarrow> snd (dimension B h x) ! i = h ! i"
  by (simp add: dimension_def Let_def split: option.splits)






lemma union_spec:
  assumes "union B h x y = (Inr u, h')" and "x < length h" and "y < length h"
  shows "same_data h h' \<and> length h \<le> u \<and> u < length h'
       \<and> ambient_space (h' ! u) = ambient_space (h ! x)
       \<and> defining_polynomials (h' ! u) =
           b_minbase B (ambient_space (h ! x))
             (b_intersection B (ambient_space (h ! x))
                (defining_polynomials (h ! x)) (defining_polynomials (h ! y)))"
proof -
  obtain a1 h1 where a1: "ambient B h x = (a1, h1)" by (cases "ambient B h x")
  obtain a2 h2 where a2: "ambient B h1 y = (a2, h2)" by (cases "ambient B h1 y")
  have s1: "same_data h h1" using ambient_same [of h B x] a1 by simp
  have s2: "same_data h1 h2" using ambient_same [of h1 B y] a2 by simp
  have s: "same_data h h2" using same_data_trans [OF s1 s2] .
  have d: "ambient_space (h2 ! x) = ambient_space (h ! x)"
    "defining_polynomials (h2 ! x) = defining_polynomials (h ! x)"
    "defining_polynomials (h2 ! y) = defining_polynomials (h ! y)"
    "length h \<le> length h2"
    using s assms(2,3) by (simp_all add: same_data_def)
  have n: "\<not> ne B h2 a1 a2"
    using assms(1) a1 a2 by (auto simp: union_def Let_def split: if_splits)
  then have r: "u = length h2"
    "h' = h2 @ [Embedded_projective_variety (ambient_space (h2 ! x))
                 (b_minbase B (ambient_space (h2 ! x))
                    (b_intersection B (ambient_space (h2 ! x))
                       (defining_polynomials (h2 ! x)) (defining_polynomials (h2 ! y))))]"
    using assms(1) a1 a2 by (auto simp: union_def Let_def alloc_def)
  have "same_data h2 h'" using r(2) same_data_alloc [of h2] by (simp add: alloc_def)
  then have "same_data h h'" using s same_data_trans by blast
  then show ?thesis using r d by (simp add: Embedded_projective_variety_def)
qed

section \<open>Dimension and the empty subscheme\<close>


lemma dimension_caches:
  assumes "x < length h"
  shows "dimension_attr (snd (dimension B h x) ! x) = Some (fst (dimension B h x))"
  using assms by (auto simp: dimension_def Let_def split: option.splits)





section \<open>Containment and equality\<close>

text \<open>
  Claim C2. For two varieties of the same ambient space, \<open>is_subset\<close> returns true exactly
  when every generator of the ideal of \<open>Y\<close> is a member of the ideal of \<open>X\<close>, and \<open>==\<close>
  returns true exactly when both containments hold. The source answers true for one and
  the same object without asking the backend; there the equivalence rests on the
  backend accepting the generators of an ideal as its members.
\<close>

theorem is_subset_iff_generators_members:
  assumes "ambient_space (h ! x) = ambient_space (h ! y)"
    and "\<forall>g \<in> set (defining_polynomials (h ! x)).
           b_member B (ambient_space (h ! x)) g (defining_polynomials (h ! x))"
  shows "(is_subset B h x y \<longleftrightarrow>
            (\<forall>g \<in> set (defining_polynomials (h ! y)).
               b_member B (ambient_space (h ! x)) g (defining_polynomials (h ! x))))
       \<and> (eq B h x y \<longleftrightarrow> is_subset B h x y \<and> is_subset B h y x)"
proof (intro conjI)
  show "is_subset B h x y \<longleftrightarrow>
          (\<forall>g \<in> set (defining_polynomials (h ! y)).
             b_member B (ambient_space (h ! x)) g (defining_polynomials (h ! x)))"
  proof (cases "x = y")
    case True
    then show ?thesis using assms(2) by (simp add: is_subset_def)
  next
    case False
    then show ?thesis using assms(1) by (simp add: is_subset_def list_all_iff)
  qed
  show "eq B h x y \<longleftrightarrow> is_subset B h x y \<and> is_subset B h y x"
    by (simp add: eq_def)
qed

theorem is_subset_iff_generators_members_witness:
  "ambient_space (two_points ! 0) = ambient_space (two_points ! 1)
   \<and> is_subset line_backend two_points 1 0
   \<and> \<not> is_subset line_backend two_points 0 1
   \<and> \<not> eq line_backend two_points 0 1
   \<and> \<not> b_member line_backend line [(1, 0)] [[(2, 0)], [(1, 1)]]"
proof -
  have a: "ambient_space (two_points ! 0) = ambient_space (two_points ! 1)"
    by (simp add: two_points_def Embedded_projective_variety_def)
  have b: "\<forall>g \<in> set (defining_polynomials (two_points ! 0)).
             b_member line_backend (ambient_space (two_points ! 0)) g
               (defining_polynomials (two_points ! 0))"
    by (simp add: two_points_def Embedded_projective_variety_def line_backend_def
        lp_member_def lp_divides_def)
  show ?thesis
    using a is_subset_iff_generators_members [OF a b]
    by (simp add: two_points_def Embedded_projective_variety_def line_backend_def
        lp_member_def lp_divides_def is_subset_def)
qed

section \<open>Intersection and union with the ambient space\<close>




section \<open>Union and containment\<close>

text \<open>
  Claim C4. For \<open>X\<close>, \<open>Y\<close>, \<open>Z\<close> of one ambient space whose union \<open>X.union(Y)\<close> is formed:
  \<open>X.union(Y).is_subset(Z)\<close> is true exactly when \<open>X.is_subset(Z)\<close> and \<open>Y.is_subset(Z)\<close> are,
  and forming the union does not change what these two return. The backend is taken to
  find a generator of \<open>Z\<close> in the minimal base of the intersection of the two ideals
  exactly when it finds it in both, and to accept the generators of an ideal as members.
\<close>

theorem union_is_subset_iff:
  fixes B :: "('p, 'r) backend" and h :: "'p heap" and z :: nat
  defines "sp \<equiv> ambient_space (h ! z)"
  assumes "x < length h" and "y < length h" and "z < length h"
    and "ambient_space (h ! x) = sp" and "ambient_space (h ! y) = sp"
    and "union B h x y = (Inr u, h')"
    and "\<forall>g \<in> set (defining_polynomials (h ! z)).
           b_member B sp g
             (b_minbase B sp
                (b_intersection B sp (defining_polynomials (h ! x)) (defining_polynomials (h ! y))))
           \<longleftrightarrow> b_member B sp g (defining_polynomials (h ! x))
               \<and> b_member B sp g (defining_polynomials (h ! y))"
    and "\<forall>g \<in> set (defining_polynomials (h ! x)). b_member B sp g (defining_polynomials (h ! x))"
    and "\<forall>g \<in> set (defining_polynomials (h ! y)). b_member B sp g (defining_polynomials (h ! y))"
  shows "(is_subset B h' u z \<longleftrightarrow> is_subset B h' x z \<and> is_subset B h' y z)
       \<and> is_subset B h' x z = is_subset B h x z
       \<and> is_subset B h' y z = is_subset B h y z"
proof -
  note u = union_spec [OF assms(7,2,3)]
  have sd: "same_data h h'" using u by simp
  have xz: "is_subset B h' x z = is_subset B h x z"
    and yz: "is_subset B h' y z = is_subset B h y z"
    using assms(2,3,4) by (simp_all add: is_subset_same [OF sd])
  have uz: "u \<noteq> z" using u assms(4) by simp
  have dz: "ambient_space (h' ! z) = sp"
    "defining_polynomials (h' ! z) = defining_polynomials (h ! z)"
    using sd assms(4) by (simp_all add: same_data_def sp_def)
  have 1: "is_subset B h' u z \<longleftrightarrow>
        (\<forall>g \<in> set (defining_polynomials (h ! z)).
           b_member B sp g (defining_polynomials (h ! x))
         \<and> b_member B sp g (defining_polynomials (h ! y)))"
    using uz u dz assms(5,8) by (simp add: is_subset_def list_all_iff)
  have 2: "is_subset B h x z \<longleftrightarrow>
        (\<forall>g \<in> set (defining_polynomials (h ! z)). b_member B sp g (defining_polynomials (h ! x)))"
    using assms(5,9) by (auto simp: is_subset_def list_all_iff sp_def)
  have 3: "is_subset B h y z \<longleftrightarrow>
        (\<forall>g \<in> set (defining_polynomials (h ! z)). b_member B sp g (defining_polynomials (h ! y)))"
    using assms(6,10) by (auto simp: is_subset_def list_all_iff sp_def)
  show ?thesis using 1 2 3 xz yz by blast
qed

theorem union_is_subset_iff_witness:
  "fst (union line_backend three_points 0 1) = Inr 5
   \<and> is_subset line_backend (snd (union line_backend three_points 0 1)) 5 2
   \<and> is_subset line_backend (snd (union line_backend three_points 0 1)) 0 2
   \<and> is_subset line_backend (snd (union line_backend three_points 0 1)) 1 2
   \<and> \<not> is_subset line_backend (snd (union line_backend three_points 0 1)) 5 0"
proof -
  have u: "union line_backend three_points 0 1
             = (Inr 5, snd (union line_backend three_points 0 1))"
    by (simp add: three_points_def lb_defs v_defs)
  have l: "(0::nat) < length three_points" "(1::nat) < length three_points"
    "(2::nat) < length three_points"
    by (simp_all add: three_points_def)
  show ?thesis
    using union_is_subset_iff [OF l _ _ u]
    by (simp add: three_points_def lb_defs v_defs)
qed

section \<open>Random complete intersections\<close>






lemma codimension_cached:
  assumes "x < length h"
  shows "codimension_attr (snd (codimension B h x) ! x) = Some (fst (codimension B h x))"
proof -
  obtain d h1 where d: "dimension B h x = (d, h1)" by (cases "dimension B h x")
  then have "length h1 = length h" using dimension_length [of B h x] by simp
  then show ?thesis using d assms by (simp add: codimension_def Let_def split: option.splits)
qed

lemma codimension_again:
  assumes "x < length h"
  shows "codimension B (snd (codimension B h x)) x = codimension B h x"
  using codimension_cached [OF assms, of B] by (simp add: codimension_def)



section \<open>The attempts of \<open>_raw_point\<close>\<close>

lemma raw_point_step_funpow:
  "(raw_point_step M x ^^ j) (raw_point_step M x st) = (raw_point_step M x ^^ Suc j) st"
  by (simp only: funpow_Suc_right o_apply)

lemma raw_point_loop_bound:
  "\<exists>j \<le> k. snd (raw_point_loop M k x st) = (raw_point_step M x ^^ j) st"
proof (induction k arbitrary: st)
  case 0
  have "snd (raw_point_loop M 0 x st) = (raw_point_step M x ^^ 0) st" by simp
  then show ?case by blast
next
  case (Suc k)
  obtain res st1 where a: "raw_point_attempt M x st = (res, st1)"
    by (cases "raw_point_attempt M x st")
  have st1: "raw_point_step M x st = st1" using a by (simp add: raw_point_step_def)
  have one: "(raw_point_step M x ^^ Suc 0) st = st1" using st1 by simp
  show ?case
  proof (cases res)
    case (Inl e)
    have "snd (raw_point_loop M (Suc k) x st) = st1" using a Inl by simp
    then have "Suc 0 \<le> Suc k \<and> snd (raw_point_loop M (Suc k) x st) = (raw_point_step M x ^^ Suc 0) st"
      using one by simp
    then show ?thesis by (rule exI)
  next
    case (Inr v)
    show ?thesis
    proof (cases v)
      case None
      obtain j where j: "j \<le> k" "snd (raw_point_loop M k x st1) = (raw_point_step M x ^^ j) st1"
        using Suc.IH [of st1] by blast
      have "(raw_point_step M x ^^ j) st1 = (raw_point_step M x ^^ Suc j) st"
        using raw_point_step_funpow [of j M x st] st1 by simp
      moreover have "snd (raw_point_loop M (Suc k) x st) = snd (raw_point_loop M k x st1)"
        using a Inr None by simp
      ultimately have "Suc j \<le> Suc k
          \<and> snd (raw_point_loop M (Suc k) x st) = (raw_point_step M x ^^ Suc j) st"
        using j by simp
      then show ?thesis by (rule exI)
    next
      case (Some p)
      have "snd (raw_point_loop M (Suc k) x st) = st1" using a Inr Some by simp
      then have "Suc 0 \<le> Suc k \<and> snd (raw_point_loop M (Suc k) x st) = (raw_point_step M x ^^ Suc 0) st"
        using one by simp
      then show ?thesis by (rule exI)
    qed
  qed
qed

lemma raw_point_loop_exhausted:
  assumes "\<forall>i < k. fst (raw_point_attempt M x ((raw_point_step M x ^^ i) st)) = Inr None"
  shows "raw_point_loop M k x st = (Inl Exception, (raw_point_step M x ^^ k) st)"
  using assms
proof (induction k arbitrary: st)
  case 0
  then show ?case by simp
next
  case (Suc k)
  have "fst (raw_point_attempt M x ((raw_point_step M x ^^ 0) st)) = Inr None"
    using Suc.prems by blast
  then obtain st1 where a: "raw_point_attempt M x st = (Inr None, st1)"
    by (cases "raw_point_attempt M x st") simp
  have st1: "raw_point_step M x st = st1" using a by (simp add: raw_point_step_def)
  have "\<forall>i < k. fst (raw_point_attempt M x ((raw_point_step M x ^^ i) st1)) = Inr None"
  proof (intro allI impI)
    fix i assume "i < k"
    then have "Suc i < Suc k" by simp
    then have "fst (raw_point_attempt M x ((raw_point_step M x ^^ Suc i) st)) = Inr None"
      using Suc.prems by blast
    moreover have "(raw_point_step M x ^^ Suc i) st = (raw_point_step M x ^^ i) st1"
      using raw_point_step_funpow [of i M x st] st1 by simp
    ultimately show "fst (raw_point_attempt M x ((raw_point_step M x ^^ i) st1)) = Inr None"
      by (simp only:)
  qed
  from Suc.IH [OF this]
  have "raw_point_loop M k x st1 = (Inl Exception, (raw_point_step M x ^^ k) st1)" .
  moreover have "(raw_point_step M x ^^ k) st1 = (raw_point_step M x ^^ Suc k) st"
    using raw_point_step_funpow [of k M x st] st1 by simp
  moreover have "raw_point_loop M (Suc k) x st = raw_point_loop M k x st1"
    using a by simp
  ultimately show ?case by (simp only:)
qed

lemma dimension_again:
  assumes "x < length h"
  shows "dimension B (snd (dimension B h x)) x = dimension B h x"
  using dimension_caches [OF assms, of B] by (simp add: dimension_def)

lemma codimension_after_dimension:
  assumes "x < length h"
  shows "fst (codimension B (snd (dimension B h x)) x) = fst (codimension B h x)"
proof (cases "codimension_attr (h ! x)")
  case None
  obtain d h1 where d: "dimension B h x = (d, h1)" by (cases "dimension B h x")
  then have 1: "dimension B h1 x = (d, h1)" using dimension_again [OF assms, of B] by simp
  have "codimension_attr (h1 ! x) = None" "ambient_space (h1 ! x) = ambient_space (h ! x)"
    using d None assms by (auto simp: dimension_def Let_def split: option.splits)
  then show ?thesis using None d 1 by (simp add: codimension_def Let_def)
next
  case (Some c)
  then have "codimension_attr (snd (dimension B h x) ! x) = Some c"
    using assms by (auto simp: dimension_def Let_def split: option.splits)
  then show ?thesis using Some by (simp add: codimension_def)
qed

text \<open>
  Claim C8. On a variety of dimension 1 and codimension 1, \<open>_raw_point\<close> is the loop of at
  most 10 rounds, each on a fresh hyperplane section: the state it leaves is the state
  after \<open>j\<close> rounds for some \<open>j\<close> up to 10, and when none of the 10 rounds finds a point
  among the components of its section, it raises \<open>Exception\<close> after the tenth.
\<close>

theorem raw_point_ten_attempts:
  assumes "x < length h"
    and "fst (dimension B h x) = 1"
    and "fst (codimension B h x) = 1"
  shows "\<exists>h0. same_data h h0
       \<and> raw_point M B (Suc n) x (h, r) = raw_point_loop M 10 x (h0, r)
       \<and> (\<exists>j \<le> 10. snd (raw_point M B (Suc n) x (h, r))
                      = (raw_point_step M x ^^ j) (h0, r))
       \<and> ((\<forall>i < 10. fst (raw_point_attempt M x
                           ((raw_point_step M x ^^ i) (h0, r))) = Inr None)
            \<longrightarrow> raw_point M B (Suc n) x (h, r)
                  = (Inl Exception, (raw_point_step M x ^^ 10) (h0, r)))"
proof -
  obtain h1 where d1: "dimension B h x = (1, h1)"
    using assms(2) by (cases "dimension B h x") simp
  have d2: "dimension B h1 x = (1, h1)" using dimension_again [OF assms(1), of B] d1 by simp
  have l1: "length h1 = length h" using dimension_length [of B h x] d1 by simp
  obtain h3 where c1: "codimension B h1 x = (1, h3)"
    using codimension_after_dimension [OF assms(1), of B] d1 assms(3)
    by (cases "codimension B h1 x") simp
  have c2: "codimension B h3 x = (1, h3)"
    using codimension_again [of x h1 B] c1 l1 assms(1) by simp
  have "same_data h h1" using dimension_same [of h B x] d1 by simp
  moreover have "same_data h1 h3" using codimension_same [of h1 B x] c1 by simp
  ultimately have sd: "same_data h h3" by (rule same_data_trans)
  have eq: "raw_point M B (Suc n) x (h, r) = raw_point_loop M 10 x (h3, r)"
    using d1 d2 c1 c2 by simp
  have b: "\<exists>j \<le> 10. snd (raw_point M B (Suc n) x (h, r)) = (raw_point_step M x ^^ j) (h3, r)"
    using raw_point_loop_bound [where k = 10 and M = M and x = x and st = "(h3, r)"]
    by (simp only: eq)
  have c: "(\<forall>i < 10. fst (raw_point_attempt M x ((raw_point_step M x ^^ i) (h3, r))) = Inr None)
            \<longrightarrow> raw_point M B (Suc n) x (h, r)
                  = (Inl Exception, (raw_point_step M x ^^ 10) (h3, r))"
    using raw_point_loop_exhausted [where k = 10 and M = M and x = x and st = "(h3, r)"]
    by (simp only: eq) blast
  show ?thesis
    using sd eq b c by (intro exI [of _ h3] conjI)
qed

theorem raw_point_ten_attempts_witness:
  "0 < length plane_line
   \<and> fst (dimension line_backend plane_line 0) = 1
   \<and> fst (codimension line_backend plane_line 0) = 1
   \<and> fst (raw_point no_point_methods line_backend 1 0 (plane_line, 0)) = Inl Exception
   \<and> snd (snd (raw_point no_point_methods line_backend 1 0 (plane_line, 0))) = 10"
proof -
  have a: "0 < length plane_line" by (simp add: plane_line_def)
  have b: "fst (dimension line_backend plane_line 0) = 1"
    by (simp add: plane_line_def dimension_def)
  have c: "fst (codimension line_backend plane_line 0) = 1"
    by (simp add: plane_line_def codimension_def)
  have e: "fst (raw_point no_point_methods line_backend 1 0 (plane_line, 0)) = Inl Exception"
    by code_simp
  have f: "snd (snd (raw_point no_point_methods line_backend 1 0 (plane_line, 0))) = 10"
    by code_simp
  show ?thesis
    using a b c e f raw_point_ten_attempts [OF a b c, of no_point_methods 0 0]
    by blast
qed

section \<open>Flags of a composite map\<close>

lemma Rational_map_init_flags:
  assumes "Rational_map_between_embedded_projective_varieties B F h X Y polys = (Inr g, h')"
    and "Y < length h"
  shows "source g = X \<and> target g = Y
       \<and> is_isomorphism g = None \<and> is_birational g = None \<and> is_morphism g = None
       \<and> is_dominant g = (if fst (dimension B h' Y) < 0 then Some True else None)
       \<and> inverse_rational_map g = None \<and> projective_degrees_list g = None
       \<and> same_data h h'"
proof -
  obtain aY h1 where a1: "ambient B h Y = (aY, h1)" by (cases "ambient B h Y")
  obtain dY h2 where d2: "dimension B h1 aY = (dY, h2)" by (cases "dimension B h1 aY")
  obtain aX h3 where a3: "ambient B h2 X = (aX, h3)" by (cases "ambient B h2 X")
  obtain d h4 where d4: "dimension B h3 Y = (d, h4)" by (cases "dimension B h3 Y")
  have s1: "same_data h h1" using ambient_same [of h B Y] a1 by simp
  have s2: "same_data h1 h2" using dimension_same [of h1 B aY] d2 by simp
  have s3: "same_data h2 h3" using ambient_same [of h2 B X] a3 by simp
  have s4: "same_data h3 h4" using dimension_same [of h3 B Y] d4 by simp
  have s03: "same_data h h3" using s1 s2 s3 same_data_trans by blast
  then have s04: "same_data h h4" using s4 same_data_trans by blast
  have Y3: "Y < length h3" using s03 assms(2) by (simp add: same_data_def)
  have dd: "fst (dimension B h4 Y) = d"
    using dimension_again [OF Y3, of B] d4 by simp
  have "h' = h4 \<and> source g = X \<and> target g = Y
       \<and> is_isomorphism g = None \<and> is_birational g = None \<and> is_morphism g = None
       \<and> is_dominant g = (if d < 0 then Some True else None)
       \<and> inverse_rational_map g = None \<and> projective_degrees_list g = None"
    using assms(1) a1 d2 a3 d4
    by (auto simp: Rational_map_between_embedded_projective_varieties_def Let_def
        split: if_splits option.splits)
  then show ?thesis using dd s04 by simp
qed

text \<open>
  Claim C5, as stated, fails for the dominance flag: the squaring map of the line has no
  flag resolved, and its composite with the map to the empty subscheme is constructed
  dominant, because the constructor resolves \<open>_is_dominant\<close> to true for a target of
  negative dimension.
\<close>

theorem compose_dominant_counterexample:
  "fst (compose line_backend line_forms (line_and_empty, three_maps) 1 2) = Inr 3
   \<and> \<not> compose_flag_rule (is_dominant (three_maps ! 1)) (is_dominant (three_maps ! 2))
         (is_dominant (snd (snd (compose line_backend line_forms (line_and_empty, three_maps) 1 2)) ! 3))"
  by (simp add: compose_flag_rule_def m_defs lb_defs v_defs)

text \<open>
  Claim C5, amended. When \<open>self.compose(f)\<close> returns, the composite is a new object and
  no existing map is changed; its isomorphism, birationality and morphism flags follow
  the rule (true when true on both maps, else unresolved); its dominance flag is true
  when it is true on both maps or the target of \<open>f\<close> has negative dimension, else
  unresolved.
\<close>

theorem compose_flags:
  assumes "compose B F (h, ms) self f = (Inr g, h', ms')"
    and "target (ms ! f) < length h"
  shows "g = length ms \<and> length ms' = Suc (length ms)
       \<and> (\<forall>i < length ms. ms' ! i = ms ! i)
       \<and> compose_flag_rule (is_isomorphism (ms ! self)) (is_isomorphism (ms ! f))
           (is_isomorphism (ms' ! g))
       \<and> compose_flag_rule (is_birational (ms ! self)) (is_birational (ms ! f))
           (is_birational (ms' ! g))
       \<and> compose_flag_rule (is_morphism (ms ! self)) (is_morphism (ms ! f))
           (is_morphism (ms' ! g))
       \<and> is_dominant (ms' ! g) =
           (if (is_dominant (ms ! self) = Some True \<and> is_dominant (ms ! f) = Some True)
               \<or> fst (dimension B h' (target (ms ! f))) < 0
            then Some True else None)"
proof -
  obtain polys where p: "fb_compose F (forms (ms ! self)) (forms (ms ! f)) = Inr polys"
    using assms(1) by (auto simp: compose_def split: sum.splits)
  obtain g0 where c: "Rational_map_between_embedded_projective_varieties B F h
                        (source (ms ! self)) (target (ms ! f)) polys = (Inr g0, h')"
    using assms(1) p by (auto simp: compose_def Let_def split: sum.splits prod.splits)
  note fl = Rational_map_init_flags [OF c assms(2)]
  have r: "g = length ms"
    "ms' = ms @ [g0\<lparr>is_isomorphism :=
                     (if is_isomorphism (ms ! self) = Some True \<and> is_isomorphism (ms ! f) = Some True
                      then Some True else is_isomorphism g0),
                   is_birational :=
                     (if is_birational (ms ! self) = Some True \<and> is_birational (ms ! f) = Some True
                      then Some True else is_birational g0),
                   is_dominant :=
                     (if is_dominant (ms ! self) = Some True \<and> is_dominant (ms ! f) = Some True
                      then Some True else is_dominant g0),
                   is_morphism :=
                     (if is_morphism (ms ! self) = Some True \<and> is_morphism (ms ! f) = Some True
                      then Some True else is_morphism g0)\<rparr>]"
    using assms(1) p c by (auto simp: compose_def Let_def)
  show ?thesis using r fl by (simp add: nth_append compose_flag_rule_def)
qed

theorem compose_flags_witness:
  "target (three_maps ! 0) < length line_and_empty
   \<and> fst (compose line_backend line_forms (line_and_empty, three_maps) 0 0) = Inr 3
   \<and> is_dominant (snd (snd (compose line_backend line_forms (line_and_empty, three_maps) 0 0)) ! 3)
        = Some True
   \<and> is_birational (snd (snd (compose line_backend line_forms (line_and_empty, three_maps) 0 0)) ! 3)
        = Some True
   \<and> snd (snd (compose line_backend line_forms (line_and_empty, three_maps) 0 0)) ! 0
        = three_maps ! 0"
proof -
  have a: "target (three_maps ! 0) < length line_and_empty"
    by (simp add: three_maps_def line_and_empty_def)
  have c: "compose line_backend line_forms (line_and_empty, three_maps) 0 0
             = (Inr 3,
                fst (snd (compose line_backend line_forms (line_and_empty, three_maps) 0 0)),
                snd (snd (compose line_backend line_forms (line_and_empty, three_maps) 0 0)))"
    by (simp add: m_defs lb_defs v_defs)
  have l: "(0::nat) < length three_maps" by (simp add: three_maps_def)
  have fl: "is_dominant (three_maps ! 0) = Some True" "is_birational (three_maps ! 0) = Some True"
    by (simp_all add: three_maps_def)
  note t = compose_flags [OF c a]
  let ?ms = "snd (snd (compose line_backend line_forms (line_and_empty, three_maps) 0 0))"
  have d: "is_dominant (?ms ! 3) = Some True" using t fl by simp
  have b: "is_birational (?ms ! 3) = Some True" using t fl by (simp add: compose_flag_rule_def)
  have k: "?ms ! 0 = three_maps ! 0" using t l by blast
  have e: "fst (compose line_backend line_forms (line_and_empty, three_maps) 0 0) = Inr 3"
    using c by (metis fst_conv)
  show ?thesis using a e d b k by blast
qed

section \<open>Projective degrees\<close>









section \<open>Memoized failure of \<open>congruence\<close>\<close>

text \<open>A memoized failure does raise at once, and the empty cone of lines is memoized.\<close>

lemma function_congruence_memoized:
  assumes "possible_degrees_for_curves_of_congruence X = Some []"
  shows "function_congruence E (Suc n) p None X = (Inl Exception, X)"
  using assms by simp

lemma congruence_failure_memoized_without_lines:
  "congruence no_line_methods 1000 None 3 None cubic_fourfold
     = (Inl Exception,
        cubic_fourfold\<lparr>possible_degrees_for_curves_of_congruence := Some [], world := 1\<rparr>)
   \<and> congruence no_line_methods 1000 None 3 None
       (snd (congruence no_line_methods 1000 None 3 None cubic_fourfold))
     = (Inl Exception,
        cubic_fourfold\<lparr>possible_degrees_for_curves_of_congruence := Some [], world := 1\<rparr>)"
  by code_simp

text \<open>
  Claim C7. The source does not do what the claim says when no candidate curve passes
  the filters: \<open>raise Exception("function 'congruence' failed")\<close> comes before the
  assignment of the empty set to the memo, which is never reached. On the cubic fourfold
  where each trial finds one line that is not a 2-secant, \<open>congruence()\<close> raises, the memo
  is still absent, and the next call computes a whole trial again before it raises.
\<close>

theorem congruence_failure_not_memoized:
  "congruence no_secant_methods 1000 None 3 None cubic_fourfold
     = (Inl Exception, cubic_fourfold\<lparr>world := 1\<rparr>)
   \<and> possible_degrees_for_curves_of_congruence
       (snd (congruence no_secant_methods 1000 None 3 None cubic_fourfold)) = None
   \<and> congruence no_secant_methods 1000 None 3 None
       (snd (congruence no_secant_methods 1000 None 3 None cubic_fourfold))
     = (Inl Exception, cubic_fourfold\<lparr>world := 2\<rparr>)"
  by code_simp

section \<open>Inversion of a birational map\<close>

lemma dimension_fst_cong:
  "h1 ! y = h ! y \<Longrightarrow> fst (dimension B h1 y) = fst (dimension B h y)"
  by (simp add: dimension_def Let_def split: option.splits)

lemma dimension_after_dimension:
  "fst (dimension B (snd (dimension B h x)) y) = fst (dimension B h y)"
proof (cases "x = y")
  case False
  then have "snd (dimension B h x) ! y = h ! y" using dimension_other [of y x B h] by simp
  then show ?thesis by (rule dimension_fst_cong)
next
  case True
  show ?thesis
  proof (cases "x < length h")
    case True
    then show ?thesis using \<open>x = y\<close> dimension_again [of x h B] by simp
  next
    case False
    then have "snd (dimension B h x) = h"
      by (simp add: dimension_def Let_def list_update_beyond split: option.splits)
    then show ?thesis by simp
  qed
qed

lemma resolve_birational_false:
  assumes "self < length ms"
    and "is_birational (ms ! self) = None"
    and "fst (dimension B h (source (ms ! self))) \<noteq> fst (dimension B h (target (ms ! self)))"
  shows "is_birational (snd (resolve_birational B h ms self) ! self) = Some False"
proof -
  obtain ds ha where a: "dimension B h (source (ms ! self)) = (ds, ha)"
    by (cases "dimension B h (source (ms ! self))")
  obtain dt hb where b: "dimension B ha (target (ms ! self)) = (dt, hb)"
    by (cases "dimension B ha (target (ms ! self))")
  have "dt = fst (dimension B h (target (ms ! self)))"
    using dimension_after_dimension [of B h "source (ms ! self)" "target (ms ! self)"] a b
    by simp
  then have "ds \<noteq> dt" using assms(3) a by simp
  then show ?thesis using assms(1,2) a b by (simp add: resolve_birational_def)
qed

lemma resolve_birational_keeps:
  assumes "is_birational (ms ! self) \<noteq> None"
  shows "resolve_birational B h ms self = (h, ms)"
  using assms by (auto simp: resolve_birational_def)

lemma resolve_birational_dominant:
  "is_dominant (snd (resolve_birational B h ms self) ! self) = is_dominant (ms ! self)"
proof (cases "self < length ms")
  case True
  then show ?thesis
    by (auto simp: resolve_birational_def split: prod.splits)
next
  case False
  then show ?thesis
    by (auto simp: resolve_birational_def list_update_beyond split: prod.splits)
qed

lemma inverse_check_success:
  assumes "inverse_check B R self g st = (Inr g', h', ms', w')"
    and "self < length ms'" and "g' < length ms'"
  shows "g' = g
       \<and> is_birational (ms' ! self) = Some True \<and> is_birational (ms' ! g) = Some True
       \<and> inverse_rational_map (ms' ! self) = Some g
       \<and> inverse_rational_map (ms' ! g) = Some self
       \<and> (\<exists>st1 st2. sampled_round_trip B R (source (fst (snd st) ! self)) self g st
                        = (Inr True, st1)
                    \<and> sampled_round_trip B R (target (fst (snd st1) ! self)) g self st1
                        = (Inr True, st2))"
proof -
  obtain st1 where 1: "sampled_round_trip B R (source (fst (snd st) ! self)) self g st
                        = (Inr True, st1)"
    using assms(1)
    by (auto simp: inverse_check_def split: prod.splits sum.splits bool.splits)
  obtain h2 ms2 w2 where 2: "sampled_round_trip B R (target (fst (snd st1) ! self)) g self st1
                        = (Inr True, h2, ms2, w2)"
    using assms(1) 1
    by (auto simp: inverse_check_def split: prod.splits sum.splits bool.splits)
  let ?ms3 = "ms2[self := (ms2 ! self)\<lparr>is_birational := Some True\<rparr>]"
  let ?ms4 = "?ms3[g := (?ms3 ! g)\<lparr>inverse_rational_map := Some self\<rparr>]"
  let ?ms5 = "?ms4[self := (?ms4 ! self)\<lparr>inverse_rational_map := Some g\<rparr>]"
  have b: "is_birational (?ms3 ! g) = Some True"
    using assms(1) 1 2 by (auto simp: inverse_check_def Let_def split: if_splits)
  have r: "g' = g" "ms' = ?ms5"
    using assms(1) 1 2 by (auto simp: inverse_check_def Let_def split: if_splits)
  have l: "self < length ms2" "g < length ms2" using assms(2,3) r by simp_all
  have "is_birational (ms' ! self) = Some True"
    using l r(2) by (cases "g = self") simp_all
  moreover have "is_birational (ms' ! g) = Some True"
    using l r(2) b by (cases "g = self") simp_all
  moreover have "inverse_rational_map (ms' ! self) = Some g"
    using l r(2) by simp
  moreover have "inverse_rational_map (ms' ! g) = Some self"
    using l r(2) by (cases "g = self") simp_all
  ultimately show ?thesis using r(1) 1 2 by blast
qed

lemma inverted_maps_reachable:
  "(fst (snd (snd (inverse line_backend inclusion_bridge (three_points, inclusion_map, ())
                     0 True ''macaulay2''))))
     [0 := (fst (snd (snd (inverse line_backend inclusion_bridge
                             (three_points, inclusion_map, ()) 0 True ''macaulay2''))) ! 0)
             \<lparr>is_dominant := Some False\<rparr>]
   = inverted_maps"
  by code_simp

text \<open>
  Claim C6, as stated, fails on a map with a cached inverse: \<open>inverse\<close> returns the cached
  map before it looks at any flag. The inclusion above passes the sampled checks and gets
  its inverse cached; once its dominance is resolved to false, \<open>inverse()\<close> still returns
  the cached map and raises nothing.
\<close>

theorem inverse_cached_counterexample:
  "is_dominant (inverted_maps ! 0) = Some False
   \<and> inverse line_backend inclusion_bridge (three_points, inverted_maps, ()) 0 True ''macaulay2''
       = (Inr 1, three_points, inverted_maps, ())"
  by (simp add: inverse_def inverted_maps_def)

text \<open>
  Claim C6, amended. A cached inverse is returned as it is, with no test and no change.
  With no inverse cached, \<open>inverse()\<close> raises \<open>ValueError\<close> when birationality or dominance
  was resolved to false, or when birationality is unresolved and the dimensions of source
  and target differ. When \<open>inverse(check=True)\<close> returns \<open>g\<close> with no inverse cached
  before, both round trips on the sampled points returned true, both maps are flagged
  birational, and each is cached as the inverse of the other.
\<close>

theorem inverse_raises_or_caches:
  assumes "self < length ms"
  shows "(\<forall>g. inverse_rational_map (ms ! self) = Some g \<longrightarrow>
            inverse B R (h, ms, w) self check algorithm = (Inr g, h, ms, w))
       \<and> (inverse_rational_map (ms ! self) = None
            \<and> (is_birational (ms ! self) = Some False
               \<or> is_dominant (ms ! self) = Some False
               \<or> (is_birational (ms ! self) = None
                  \<and> fst (dimension B h (source (ms ! self)))
                       \<noteq> fst (dimension B h (target (ms ! self)))))
            \<longrightarrow> fst (inverse B R (h, ms, w) self check algorithm) = Inl ValueError)
       \<and> (\<forall>g h' ms' w'.
            inverse_rational_map (ms ! self) = None
            \<and> inverse B R (h, ms, w) self True algorithm = (Inr g, h', ms', w')
            \<and> self < length ms' \<and> g < length ms'
            \<longrightarrow> is_birational (ms' ! self) = Some True
              \<and> is_birational (ms' ! g) = Some True
              \<and> inverse_rational_map (ms' ! self) = Some g
              \<and> inverse_rational_map (ms' ! g) = Some self
              \<and> (\<exists>st st1 st2.
                    sampled_round_trip B R (source (fst (snd st) ! self)) self g st
                      = (Inr True, st1)
                  \<and> sampled_round_trip B R (target (fst (snd st1) ! self)) g self st1
                      = (Inr True, st2)))"
proof -
  have p1: "\<forall>g. inverse_rational_map (ms ! self) = Some g \<longrightarrow>
            inverse B R (h, ms, w) self check algorithm = (Inr g, h, ms, w)"
    by (simp add: inverse_def)
  have p2: "inverse_rational_map (ms ! self) = None
            \<and> (is_birational (ms ! self) = Some False
               \<or> is_dominant (ms ! self) = Some False
               \<or> (is_birational (ms ! self) = None
                  \<and> fst (dimension B h (source (ms ! self)))
                       \<noteq> fst (dimension B h (target (ms ! self)))))
            \<longrightarrow> fst (inverse B R (h, ms, w) self check algorithm) = Inl ValueError"
  proof
    assume a: "inverse_rational_map (ms ! self) = None
            \<and> (is_birational (ms ! self) = Some False
               \<or> is_dominant (ms ! self) = Some False
               \<or> (is_birational (ms ! self) = None
                  \<and> fst (dimension B h (source (ms ! self)))
                       \<noteq> fst (dimension B h (target (ms ! self)))))"
    obtain h1 ms1 where r: "resolve_birational B h ms self = (h1, ms1)"
      by (cases "resolve_birational B h ms self")
    have "is_birational (ms1 ! self) = Some False \<or> is_dominant (ms1 ! self) = Some False"
    proof -
      consider "is_birational (ms ! self) = Some False"
        | "is_dominant (ms ! self) = Some False"
        | "is_birational (ms ! self) = None"
          "fst (dimension B h (source (ms ! self))) \<noteq> fst (dimension B h (target (ms ! self)))"
        using a by auto
      then show ?thesis
      proof cases
        case 1
        then show ?thesis using resolve_birational_keeps [of ms self B h] r by simp
      next
        case 2
        then show ?thesis using resolve_birational_dominant [of B h ms self] r by simp
      next
        case 3
        then show ?thesis using resolve_birational_false [OF assms, of B h] r by simp
      qed
    qed
    then show "fst (inverse B R (h, ms, w) self check algorithm) = Inl ValueError"
      using a r by (auto simp: inverse_def)
  qed
  have p3: "is_birational (ms' ! self) = Some True
              \<and> is_birational (ms' ! g) = Some True
              \<and> inverse_rational_map (ms' ! self) = Some g
              \<and> inverse_rational_map (ms' ! g) = Some self
              \<and> (\<exists>st st1 st2.
                    sampled_round_trip B R (source (fst (snd st) ! self)) self g st
                      = (Inr True, st1)
                  \<and> sampled_round_trip B R (target (fst (snd st1) ! self)) g self st1
                      = (Inr True, st2))"
    if a: "inverse_rational_map (ms ! self) = None
            \<and> inverse B R (h, ms, w) self True algorithm = (Inr g, h', ms', w')
            \<and> self < length ms' \<and> g < length ms'" for g h' ms' w'
  proof -
    obtain g0 st4 where c: "inverse_check B R self g0 st4 = (Inr g, h', ms', w')"
      using a
      by (auto simp: inverse_def split: prod.splits if_splits option.splits sum.splits)
    have "g = g0
       \<and> is_birational (ms' ! self) = Some True \<and> is_birational (ms' ! g0) = Some True
       \<and> inverse_rational_map (ms' ! self) = Some g0
       \<and> inverse_rational_map (ms' ! g0) = Some self
       \<and> (\<exists>st1 st2. sampled_round_trip B R (source (fst (snd st4) ! self)) self g0 st4
                        = (Inr True, st1)
                    \<and> sampled_round_trip B R (target (fst (snd st1) ! self)) g0 self st1
                        = (Inr True, st2))"
      using inverse_check_success [OF c] a by blast
    then show ?thesis by blast
  qed
  show ?thesis using p1 p2 p3 by blast
qed

theorem inverse_raises_or_caches_witness:
  "0 < length inclusion_map
   \<and> fst (inverse line_backend inclusion_bridge (three_points, inclusion_map, ())
            0 True ''macaulay2'') = Inr 1
   \<and> is_birational (fst (snd (snd (inverse line_backend inclusion_bridge
        (three_points, inclusion_map, ()) 0 True ''macaulay2''))) ! 0) = Some True
   \<and> inverse_rational_map (fst (snd (snd (inverse line_backend inclusion_bridge
        (three_points, inclusion_map, ()) 0 True ''macaulay2''))) ! 0) = Some 1
   \<and> inverse_rational_map (fst (snd (snd (inverse line_backend inclusion_bridge
        (three_points, inclusion_map, ()) 0 True ''macaulay2''))) ! 1) = Some 0"
proof -
  let ?r = "inverse line_backend inclusion_bridge (three_points, inclusion_map, ())
              0 True ''macaulay2''"
  have l: "0 < length inclusion_map" by (simp add: inclusion_map_def)
  have e: "fst ?r = Inr 1" by code_simp
  have c: "?r = (Inr 1, fst (snd ?r), fst (snd (snd ?r)), snd (snd (snd ?r)))"
    using e by (metis prod.collapse)
  have n: "inverse_rational_map (inclusion_map ! 0) = None" by (simp add: inclusion_map_def)
  have k: "0 < length (fst (snd (snd ?r)))" "1 < length (fst (snd (snd ?r)))" by code_simp+
  note t = inverse_raises_or_caches [OF l, of line_backend inclusion_bridge three_points "()"
             True "''macaulay2''"]
  have "is_birational (fst (snd (snd ?r)) ! 0) = Some True
      \<and> is_birational (fst (snd (snd ?r)) ! 1) = Some True
      \<and> inverse_rational_map (fst (snd (snd ?r)) ! 0) = Some 1
      \<and> inverse_rational_map (fst (snd (snd ?r)) ! 1) = Some 0"
    using t n c k by blast
  then show ?thesis using l e by blast
qed

end
